theory Spec2Isabelle
  imports Complex_Main
begin

section \<open>Recording data client (MEAMovieClient)\<close>

text \<open>
  The program is TypeScript. A value of type \<open>number\<close> is modelled as a \<open>real\<close>. A
  value that may be \<open>undefined\<close> or \<open>null\<close> is an \<open>option\<close>. A typed array
  (\<open>Float32Array\<close>, \<open>Int16Array\<close>, \<open>Uint16Array\<close>, \<open>Uint32Array\<close>) is the list of
  the numbers it holds; reading it at an index that is out of range gives \<open>undefined\<close>,
  as in JavaScript.

  The arithmetic of the client's time and index conversions is rounded to binary64,
  operation by operation, as the processor does it: \<open>binary64 x\<close> is the double nearest
  to \<open>x\<close>, ties to the even significand, with gradual underflow below \<open>2 powi (- 1022)\<close>.
  Overflow to \<open>Infinity\<close> is not modelled: \<open>binary64\<close> rounds as if the exponent had no
  upper bound, and a result has not overflowed when it is \<open>inDoubleRange\<close>. The
  statements about these conversions bound their inputs so that every intermediate
  result is in that range.
\<close>

definition roundHalfEven :: "real \<Rightarrow> int" where
  "roundHalfEven y =
     (let lower = \<lfloor>y\<rfloor>; rest = y - of_int lower
      in if rest < 1 / 2 then lower
         else if rest > 1 / 2 then lower + 1
         else if even lower then lower else lower + 1)"

definition binaryExponent :: "real \<Rightarrow> int" where
  "binaryExponent x = max (- 1022) \<lfloor>log 2 \<bar>x\<bar>\<rfloor>"

definition binary64 :: "real \<Rightarrow> real" where
  "binary64 x =
     (if x = 0 then 0
      else (let ulp = 2 powi (binaryExponent x - 52)
            in of_int (roundHalfEven (x / ulp)) * ulp))"

definition inDoubleRange :: "real \<Rightarrow> bool" where
  "inDoubleRange x = (\<bar>x\<bar> < 2 ^ 1024)"

definition typedArrayGet :: "real list \<Rightarrow> nat \<Rightarrow> real option" where
  "typedArrayGet xs k = (if k < length xs then Some (xs ! k) else None)"

text \<open>
  The chunked array store (\<open>figpack-interface.ts\<close>) is an external collaborator. A promise
  of the store either rejects (\<open>Inl\<close> with the message) or resolves (\<open>Inr\<close>);
  \<open>getDataset\<close> and \<open>getData\<close> may resolve to \<open>undefined\<close>.
\<close>

record ZarrDataset =
  getData :: "(real \<times> real) list option \<Rightarrow> string + real list option"

record ZarrGroup =
  attrs :: "string \<rightharpoonup> real"
  getDataset :: "string \<Rightarrow> string + ZarrDataset option"

text \<open>
  Every error of the client is a JavaScript \<open>Error\<close> with a message; one constructor
  stands for each message of the source. \<open>StoreRejection\<close> is a rejected promise of the
  store, passed on unchanged, and \<open>TypeError\<close> is the runtime's error on indexing
  \<open>undefined\<close>.
\<close>

datatype error =
    NoRawDataDataset
  | MissingRequiredAttributes
  | NoSpikeChannelIndicesDataset
  | NoSpikeFrameIndicesDataset
  | TimeIndexOutOfRange real real
  | StoreRejection string
  | TypeError

record MEAMovieClient =
  zarrGroup :: ZarrGroup
  numTimepoints :: real
  numChannels :: real
  samplingFrequencyHz :: real
  startTimeSec :: real
  dataMin :: real
  dataMax :: real
  dataMedian :: real
  rawDataDataset :: ZarrDataset
  electrodeCoords :: "real list option"
  numSpikes :: real
  spikeChannelIndices :: "real list option"
  spikeFrameIndices :: "real list option"
  spikesByFrame :: "(real option \<rightharpoonup> real option list) option"

definition endTimeSec :: "MEAMovieClient \<Rightarrow> real" where
  "endTimeSec c =
     binary64 (startTimeSec c + binary64 (numTimepoints c / samplingFrequencyHz c))"

definition getTimeFromIndex :: "MEAMovieClient \<Rightarrow> real \<Rightarrow> real" where
  "getTimeFromIndex c timeIndex =
     binary64 (startTimeSec c + binary64 (timeIndex / samplingFrequencyHz c))"

text \<open>
  \<open>Math.round\<close> rounds half up, as \<^const>\<open>round\<close> does, and its result is exact;
  so are \<open>Math.max\<close> and \<open>Math.min\<close>.
\<close>

definition getIndexFromTime :: "MEAMovieClient \<Rightarrow> real \<Rightarrow> real" where
  "getIndexFromTime c timeSec =
     (let index = real_of_int (round (binary64
                    (binary64 (timeSec - startTimeSec c) * samplingFrequencyHz c)))
      in max 0 (min (binary64 (numTimepoints c - 1)) index))"

text \<open>
  The specification's wording of the clamp, to compare with the source's max/min; the
  difference and the product are the code's, rounded.
\<close>

definition spec_clamp :: "real \<Rightarrow> real \<Rightarrow> real \<Rightarrow> real" where
  "spec_clamp lo hi x = (if x < lo then lo else if hi < x then hi else x)"

definition spec_timeToIndex :: "MEAMovieClient \<Rightarrow> real \<Rightarrow> real" where
  "spec_timeToIndex c t =
     spec_clamp 0 (numTimepoints c - 1)
       (real_of_int (round (binary64
          (binary64 (t - startTimeSec c) * samplingFrequencyHz c))))"

subsection \<open>Loading a recording: \<open>MEAMovieClient.create\<close>\<close>

text \<open>
  A JavaScript \<open>Set\<close> keeps its elements in insertion order; \<open>add\<close> of an element
  that is present changes nothing.
\<close>

definition setAdd :: "'a list \<Rightarrow> 'a \<Rightarrow> 'a list" where
  "setAdd xs x = (if x \<in> set xs then xs else xs @ [x])"

text \<open>One iteration of the loop of \<open>#loadSpikeData\<close> that builds \<open>#spikesByFrame\<close>.\<close>

definition spikeLoopBody ::
  "real list \<Rightarrow> real list \<Rightarrow> nat \<Rightarrow>
   (real option \<rightharpoonup> real option list) \<Rightarrow> (real option \<rightharpoonup> real option list)" where
  "spikeLoopBody frames chans i m =
     (let frameIndex = typedArrayGet frames i;
          channelIndex = typedArrayGet chans i;
          m1 = (if m frameIndex = None then m(frameIndex \<mapsto> []) else m)
      in case m1 frameIndex of
           None \<Rightarrow> m1
         | Some channels \<Rightarrow> m1(frameIndex \<mapsto> setAdd channels channelIndex))"

text \<open>
  The loop \<open>for (let i = 0; i < numSpikes; i++)\<close> runs for the naturals \<open>i\<close> below
  \<open>numSpikes\<close>, which are those below \<open>nat \<lceil>numSpikes\<rceil>\<close>.
\<close>

definition loopCount :: "real \<Rightarrow> nat" where
  "loopCount n = nat \<lceil>n\<rceil>"

definition loadSpikeData :: "MEAMovieClient \<Rightarrow> error + MEAMovieClient" where
  "loadSpikeData c =
     (case getDataset (zarrGroup c) ''spike_channel_indices'' of
        Inl msg \<Rightarrow> Inl (StoreRejection msg)
      | Inr None \<Rightarrow> Inl NoSpikeChannelIndicesDataset
      | Inr (Some spikeChannelDataset) \<Rightarrow>
     (case getData spikeChannelDataset None of
        Inl msg \<Rightarrow> Inl (StoreRejection msg)
      | Inr channelData \<Rightarrow>
     (case getDataset (zarrGroup c) ''spike_frame_indices'' of
        Inl msg \<Rightarrow> Inl (StoreRejection msg)
      | Inr None \<Rightarrow> Inl NoSpikeFrameIndicesDataset
      | Inr (Some spikeFrameDataset) \<Rightarrow>
     (case getData spikeFrameDataset None of
        Inl msg \<Rightarrow> Inl (StoreRejection msg)
      | Inr frameData \<Rightarrow>
          (let c1 = c\<lparr>spikeChannelIndices := channelData, spikeFrameIndices := frameData\<rparr>
           in case (frameData, channelData) of
                (Some frames, Some chans) \<Rightarrow>
                  Inr (c1\<lparr>spikesByFrame :=
                         Some (fold (spikeLoopBody frames chans)
                                 [0..<loopCount (numSpikes c)] Map.empty)\<rparr>)
              | _ \<Rightarrow>
                  if 0 < loopCount (numSpikes c) then Inl TypeError
                  else Inr (c1\<lparr>spikesByFrame := Some Map.empty\<rparr>))))))"

text \<open>The constructor: the spike arrays and the spike map start as \<open>null\<close>.\<close>

definition newMEAMovieClient ::
  "ZarrGroup \<Rightarrow> real \<Rightarrow> real \<Rightarrow> real \<Rightarrow> real \<Rightarrow> real \<Rightarrow> real \<Rightarrow> real \<Rightarrow> ZarrDataset \<Rightarrow> real \<Rightarrow>
   MEAMovieClient" where
  "newMEAMovieClient zg nt nc fs st dmin dmax dmed rawData ns =
     \<lparr>zarrGroup = zg, numTimepoints = nt, numChannels = nc, samplingFrequencyHz = fs,
      startTimeSec = st, dataMin = dmin, dataMax = dmax, dataMedian = dmed,
      rawDataDataset = rawData, electrodeCoords = None, numSpikes = ns,
      spikeChannelIndices = None, spikeFrameIndices = None, spikesByFrame = None\<rparr>"

text \<open>
  \<open>create\<close> reads the attributes, looks the raw data up, then checks the attributes.
  \<open>(attrs["num_spikes"] as number) || 0\<close> is 0 when the attribute is absent.
\<close>

definition create :: "ZarrGroup \<Rightarrow> error + MEAMovieClient" where
  "create zg =
     (let a = attrs zg;
          numTimepointsA = a ''num_timepoints'';
          numChannelsA = a ''num_channels'';
          samplingFrequencyHzA = a ''sampling_frequency_hz'';
          startTimeSecA = a ''start_time_sec'';
          dataMinA = a ''data_min'';
          dataMaxA = a ''data_max'';
          dataMedianA = a ''data_median'';
          numSpikesA = (case a ''num_spikes'' of None \<Rightarrow> 0 | Some v \<Rightarrow> v)
      in case getDataset zg ''raw_data'' of
           Inl msg \<Rightarrow> Inl (StoreRejection msg)
         | Inr None \<Rightarrow> Inl NoRawDataDataset
         | Inr (Some rawData) \<Rightarrow>
             if numTimepointsA = None \<or> numChannelsA = None \<or>
                samplingFrequencyHzA = None \<or> startTimeSecA = None \<or>
                dataMinA = None \<or> dataMaxA = None \<or> dataMedianA = None
             then Inl MissingRequiredAttributes
             else
               (let client = newMEAMovieClient zg (the numTimepointsA) (the numChannelsA)
                      (the samplingFrequencyHzA) (the startTimeSecA) (the dataMinA)
                      (the dataMaxA) (the dataMedianA) rawData numSpikesA
                in if numSpikesA > 0 then loadSpikeData client else Inr client))"

subsection \<open>Frames and spikes\<close>

definition getFrameData :: "MEAMovieClient \<Rightarrow> real \<Rightarrow> error + real list option" where
  "getFrameData c timeIndex =
     (if timeIndex < 0 \<or> timeIndex \<ge> numTimepoints c
      then Inl (TimeIndexOutOfRange timeIndex (numTimepoints c))
      else case getData (rawDataDataset c)
                  (Some [(timeIndex, timeIndex + 1), (0, numChannels c)]) of
             Inl msg \<Rightarrow> Inl (StoreRejection msg)
           | Inr data \<Rightarrow> Inr data)"

definition getSpikingChannels :: "MEAMovieClient \<Rightarrow> real \<Rightarrow> real option list" where
  "getSpikingChannels c frameIndex =
     (case spikesByFrame c of
        None \<Rightarrow> []
      | Some m \<Rightarrow> (case m (Some frameIndex) of None \<Rightarrow> [] | Some channels \<Rightarrow> channels))"

text \<open>Reading a spike array of the client that may not be loaded.\<close>

definition spikeArrayGet :: "real list option \<Rightarrow> nat \<Rightarrow> real option" where
  "spikeArrayGet arr k = (case arr of None \<Rightarrow> None | Some xs \<Rightarrow> typedArrayGet xs k)"

section \<open>The view: loading and the playback clock (MEAMovieView)\<close>

text \<open>
  The state of the \<open>MEAMovieView\<close> component: its \<open>useState\<close> cells and the
  \<open>currentTime\<close> of the timeseries selection context (the context's other fields are
  not read by the playback code).
\<close>

record MEAMovieView =
  client :: "MEAMovieClient option"
  loading :: bool
  error :: "error option"
  isPlaying :: bool
  playbackSpeed :: real
  contrast :: real
  colormap :: string
  playbackStartWallClockTime :: "real option"
  playbackStartDataTime :: "real option"
  currentTime :: "real option"

text \<open>The \<open>load\<close> effect: a failure of \<open>create\<close> sets the error and no client.\<close>

definition load :: "ZarrGroup \<Rightarrow> MEAMovieView \<Rightarrow> MEAMovieView" where
  "load zg s =
     (let s1 = s\<lparr>loading := True, error := None\<rparr>
      in case create zg of
           Inr meaClient \<Rightarrow>
             s1\<lparr>client := Some meaClient, currentTime := Some (startTimeSec meaClient),
                loading := False\<rparr>
         | Inl err \<Rightarrow> s1\<lparr>error := Some err, loading := False\<rparr>)"

text \<open>
  The callback \<open>animate\<close> of the playback effect. Its closure holds the client, the
  anchor pair and the speed; \<open>currentWallClockTime\<close> is \<open>Date.now()\<close> in milliseconds.
  The second component of the result tells whether \<open>animate\<close> requested another
  animation frame.
\<close>

definition animate ::
  "MEAMovieClient \<Rightarrow> real \<Rightarrow> real \<Rightarrow> real \<Rightarrow> real \<Rightarrow> MEAMovieView \<Rightarrow> MEAMovieView \<times> bool" where
  "animate c startWallClockTime startDataTime speed currentWallClockTime s =
     (let elapsedWallClockTimeSec = (currentWallClockTime - startWallClockTime) / 1000;
          newDataTime = startDataTime + elapsedWallClockTimeSec * speed
      in if newDataTime \<ge> endTimeSec c
         then (s\<lparr>isPlaying := False, currentTime := Some (endTimeSec c),
                  playbackStartWallClockTime := None, playbackStartDataTime := None\<rparr>, False)
         else (s\<lparr>currentTime := Some newDataTime\<rparr>, True))"

text \<open>
  The playback effect runs \<open>animate\<close> only while playing with a client and both anchors.
  It is set up again whenever one of them or the speed changes, so a callback that fires
  reads the values of the current state.
\<close>

definition playbackEffectActive :: "MEAMovieView \<Rightarrow> bool" where
  "playbackEffectActive s =
     (isPlaying s \<and> client s \<noteq> None \<and> playbackStartWallClockTime s \<noteq> None \<and>
      playbackStartDataTime s \<noteq> None)"

definition animationFrame :: "real \<Rightarrow> MEAMovieView \<Rightarrow> MEAMovieView \<times> bool" where
  "animationFrame now s =
     (if playbackEffectActive s
      then animate (the (client s)) (the (playbackStartWallClockTime s))
             (the (playbackStartDataTime s)) (playbackSpeed s) now s
      else (s, False))"

definition handlePlayPause :: "real \<Rightarrow> MEAMovieView \<Rightarrow> MEAMovieView" where
  "handlePlayPause now s =
     (case (client s, currentTime s) of
        (Some c, Some t) \<Rightarrow>
          if isPlaying s
          then s\<lparr>isPlaying := False, playbackStartWallClockTime := None,
                 playbackStartDataTime := None\<rparr>
          else if t \<ge> endTimeSec c
          then s\<lparr>currentTime := Some (startTimeSec c),
                 playbackStartWallClockTime := Some now,
                 playbackStartDataTime := Some (startTimeSec c), isPlaying := True\<rparr>
          else s\<lparr>playbackStartWallClockTime := Some now,
                 playbackStartDataTime := Some t, isPlaying := True\<rparr>
      | _ \<Rightarrow> s)"

definition handleSpeedChange :: "real \<Rightarrow> real \<Rightarrow> MEAMovieView \<Rightarrow> MEAMovieView" where
  "handleSpeedChange newSpeed now s =
     (let s1 = s\<lparr>playbackSpeed := newSpeed\<rparr>
      in if isPlaying s \<and> currentTime s \<noteq> None
         then s1\<lparr>playbackStartWallClockTime := Some now,
                 playbackStartDataTime := currentTime s\<rparr>
         else s1)"

text \<open>The view before its first load (the constants of the source's \<open>useState\<close> calls).\<close>

definition DEFAULT_PLAYBACK_SPEED :: real where
  "DEFAULT_PLAYBACK_SPEED = 0.001"

definition DEFAULT_CONTRAST :: real where
  "DEFAULT_CONTRAST = 50"

definition initialView :: "real option \<Rightarrow> MEAMovieView" where
  "initialView contextTime =
     \<lparr>client = None, loading = True, error = None, isPlaying = False,
      playbackSpeed = DEFAULT_PLAYBACK_SPEED, contrast = DEFAULT_CONTRAST,
      colormap = ''grayscale'', playbackStartWallClockTime = None,
      playbackStartDataTime = None, currentTime = contextTime\<rparr>"

text \<open>
  The recording of the specification's scenarios A and D: 20000 samples at 20000 Hz from
  time 0, with four channels and no spikes, in a store where the sample of every channel
  at time index \<open>i\<close> is \<open>i\<close>.
\<close>

definition scenarioDataset :: ZarrDataset where
  "scenarioDataset =
     \<lparr>getData = (\<lambda>slice. case slice of
                    Some ((i, j) # cols) \<Rightarrow> Inr (Some [i, i, i, i])
                  | _ \<Rightarrow> Inr None)\<rparr>"

definition scenarioGroup :: ZarrGroup where
  "scenarioGroup =
     \<lparr>attrs = [''num_timepoints'' \<mapsto> 20000, ''num_channels'' \<mapsto> 4,
               ''sampling_frequency_hz'' \<mapsto> 20000, ''start_time_sec'' \<mapsto> 0,
               ''data_min'' \<mapsto> 0, ''data_max'' \<mapsto> 19999, ''data_median'' \<mapsto> 10000],
      getDataset = (\<lambda>name. if name = ''raw_data'' then Inr (Some scenarioDataset)
                             else Inr None)\<rparr>"

definition scenarioClient :: MEAMovieClient where
  "scenarioClient =
     \<lparr>zarrGroup = scenarioGroup, numTimepoints = 20000, numChannels = 4,
      samplingFrequencyHz = 20000, startTimeSec = 0, dataMin = 0, dataMax = 19999,
      dataMedian = 10000, rawDataDataset = scenarioDataset, electrodeCoords = None,
      numSpikes = 0, spikeChannelIndices = None, spikeFrameIndices = None,
      spikesByFrame = None\<rparr>"

text \<open>The same recording cut to four samples: its end time is the double of 0.0002.\<close>

definition shortClient :: MEAMovieClient where
  "shortClient = scenarioClient\<lparr>numTimepoints := 4\<rparr>"

text \<open>The channels stored for a key of the spike map (none when the key is absent).\<close>

definition channelsOf ::
  "(real option \<rightharpoonup> real option list) \<Rightarrow> real option \<Rightarrow> real option list" where
  "channelsOf m key = (case m key of None \<Rightarrow> [] | Some xs \<Rightarrow> xs)"




definition spikeGroup :: ZarrGroup where
  "spikeGroup =
     \<lparr>attrs = (attrs scenarioGroup)(''num_spikes'' \<mapsto> 3),
      getDataset = (\<lambda>name.
        if name = ''raw_data'' then Inr (Some scenarioDataset)
        else if name = ''spike_channel_indices''
        then Inr (Some \<lparr>getData = (\<lambda>slice. Inr (Some [3, 5, 3]))\<rparr>)
        else if name = ''spike_frame_indices''
        then Inr (Some \<lparr>getData = (\<lambda>slice. Inr (Some [100, 100, 200]))\<rparr>)
        else Inr None)\<rparr>"

text \<open>
  Scenario A: the view after loading the scenario's recording, with the speed set to 1,
  stopped at the start (\<open>scenarioStopped\<close>) and after \<open>play\<close> at wall-clock time 1000 ms
  (\<open>scenarioPlaying\<close>).
\<close>

definition scenarioStopped :: MEAMovieView where
  "scenarioStopped = handleSpeedChange 1 0 (load scenarioGroup (initialView None))"

definition scenarioPlaying :: MEAMovieView where
  "scenarioPlaying = handlePlayPause 1000 scenarioStopped"

section \<open>The canvas (MEAMovieCanvas)\<close>

subsection \<open>Marker radius\<close>

text \<open>
  The distance of electrodes \<open>i\<close> and \<open>j\<close> in the flat coordinate array. A coordinate
  read out of range is \<open>undefined\<close> and makes the distance \<open>NaN\<close>, here \<open>None\<close>; every
  comparison with \<open>NaN\<close> is false.
\<close>

definition electrodeDistance :: "real list \<Rightarrow> nat \<Rightarrow> nat \<Rightarrow> real option" where
  "electrodeDistance coords i j =
     (case (typedArrayGet coords (i * 2), typedArrayGet coords (i * 2 + 1),
            typedArrayGet coords (j * 2), typedArrayGet coords (j * 2 + 1)) of
        (Some x1, Some y1, Some x2, Some y2) \<Rightarrow> Some (sqrt ((x2 - x1)\<^sup>2 + (y2 - y1)\<^sup>2))
      | _ \<Rightarrow> None)"

text \<open>The body of the inner loop; \<open>minDist = None\<close> stands for \<open>Infinity\<close>.\<close>

definition minDistStep :: "real list \<Rightarrow> nat \<Rightarrow> nat \<Rightarrow> real option \<Rightarrow> real option" where
  "minDistStep coords i j minDist =
     (case electrodeDistance coords i j of
        None \<Rightarrow> minDist
      | Some distance \<Rightarrow>
          if distance > 0 \<and> (case minDist of None \<Rightarrow> True | Some m \<Rightarrow> distance < m)
          then Some distance else minDist)"

definition calculateMinElectrodeDistance :: "real list \<Rightarrow> real" where
  "calculateMinElectrodeDistance coords =
     (let numElectrodes = real (length coords) / 2;
          minDist = fold (\<lambda>i. fold (minDistStep coords i) [i + 1..<loopCount numElectrodes])
                      [0..<loopCount numElectrodes] None
      in case minDist of None \<Rightarrow> 10 | Some m \<Rightarrow> m)"

text \<open>The radius that \<open>loadCoords\<close> stores: 95 percent of half the minimum spacing.\<close>

definition electrodeRadius :: "real list \<Rightarrow> real" where
  "electrodeRadius coords = (calculateMinElectrodeDistance coords * 0.95) / 2"

text \<open>
  The distances of all pairs of electrodes, in the order of the loops, and the claim's
  minimum pairwise distance. The positive ones are those that the loop considers.
\<close>

definition pairwiseDistances :: "real list \<Rightarrow> real list" where
  "pairwiseDistances coords =
     concat (map (\<lambda>i. concat (map (\<lambda>j. case electrodeDistance coords i j of
                                            None \<Rightarrow> [] | Some d \<Rightarrow> [d])
                                 [i + 1..<loopCount (real (length coords) / 2)]))
               [0..<loopCount (real (length coords) / 2)])"

definition spec_minPairwiseDistance :: "real list \<Rightarrow> real" where
  "spec_minPairwiseDistance coords = Min (set (pairwiseDistances coords))"

definition positiveDistances :: "real list \<Rightarrow> real set" where
  "positiveDistances coords =
     {d. \<exists>i j. i < j \<and> electrodeDistance coords i j = Some d \<and> 0 < d}"

subsection \<open>Colour of an electrode\<close>

text \<open>
  The colour step divides by the data range, which is zero for a recording whose
  minimum, maximum and median coincide. This step is therefore modelled on JavaScript
  numbers with their infinities and \<open>NaN\<close>: \<open>Fin\<close> is a finite number. A zero divisor
  is taken as \<open>+0\<close>, which is what the data range is when it is zero.
\<close>

datatype jsnum = Fin real | PosInf | NegInf | NaN

fun js_neg :: "jsnum \<Rightarrow> jsnum" where
  "js_neg (Fin a) = Fin (- a)"
| "js_neg PosInf = NegInf"
| "js_neg NegInf = PosInf"
| "js_neg NaN = NaN"

fun js_add :: "jsnum \<Rightarrow> jsnum \<Rightarrow> jsnum" where
  "js_add (Fin a) (Fin b) = Fin (a + b)"
| "js_add NaN _ = NaN"
| "js_add _ NaN = NaN"
| "js_add PosInf NegInf = NaN"
| "js_add NegInf PosInf = NaN"
| "js_add PosInf _ = PosInf"
| "js_add _ PosInf = PosInf"
| "js_add NegInf _ = NegInf"
| "js_add _ NegInf = NegInf"

definition js_sub :: "jsnum \<Rightarrow> jsnum \<Rightarrow> jsnum" where
  "js_sub a b = js_add a (js_neg b)"

fun js_mul :: "jsnum \<Rightarrow> jsnum \<Rightarrow> jsnum" where
  "js_mul (Fin a) (Fin b) = Fin (a * b)"
| "js_mul NaN _ = NaN"
| "js_mul _ NaN = NaN"
| "js_mul PosInf (Fin b) = (if b > 0 then PosInf else if b < 0 then NegInf else NaN)"
| "js_mul NegInf (Fin b) = (if b > 0 then NegInf else if b < 0 then PosInf else NaN)"
| "js_mul (Fin a) PosInf = (if a > 0 then PosInf else if a < 0 then NegInf else NaN)"
| "js_mul (Fin a) NegInf = (if a > 0 then NegInf else if a < 0 then PosInf else NaN)"
| "js_mul PosInf PosInf = PosInf"
| "js_mul PosInf NegInf = NegInf"
| "js_mul NegInf PosInf = NegInf"
| "js_mul NegInf NegInf = PosInf"

fun js_div :: "jsnum \<Rightarrow> jsnum \<Rightarrow> jsnum" where
  "js_div (Fin a) (Fin b) =
     (if b \<noteq> 0 then Fin (a / b)
      else if a > 0 then PosInf else if a < 0 then NegInf else NaN)"
| "js_div NaN _ = NaN"
| "js_div _ NaN = NaN"
| "js_div (Fin a) PosInf = Fin 0"
| "js_div (Fin a) NegInf = Fin 0"
| "js_div PosInf (Fin b) = (if b \<ge> 0 then PosInf else NegInf)"
| "js_div NegInf (Fin b) = (if b \<ge> 0 then NegInf else PosInf)"
| "js_div _ _ = NaN"

text \<open>\<open>Math.min\<close> and \<open>Math.max\<close>: \<open>NaN\<close> when an argument is \<open>NaN\<close>.\<close>

fun js_min :: "jsnum \<Rightarrow> jsnum \<Rightarrow> jsnum" where
  "js_min (Fin a) (Fin b) = Fin (min a b)"
| "js_min NaN _ = NaN"
| "js_min _ NaN = NaN"
| "js_min NegInf _ = NegInf"
| "js_min _ NegInf = NegInf"
| "js_min PosInf b = b"
| "js_min a PosInf = a"

fun js_max :: "jsnum \<Rightarrow> jsnum \<Rightarrow> jsnum" where
  "js_max (Fin a) (Fin b) = Fin (max a b)"
| "js_max NaN _ = NaN"
| "js_max _ NaN = NaN"
| "js_max PosInf _ = PosInf"
| "js_max _ PosInf = PosInf"
| "js_max NegInf b = b"
| "js_max a NegInf = a"

text \<open>
  The value handed to \<open>valueToColor\<close> for a sample \<open>value\<close>, from the render effect.
\<close>

definition colorValue :: "MEAMovieClient \<Rightarrow> real \<Rightarrow> real \<Rightarrow> jsnum" where
  "colorValue c contrastSetting value =
     (let dataRange = 2 * max \<bar>dataMax c - dataMedian c\<bar> \<bar>dataMin c - dataMedian c\<bar>;
          contrastScale = exp ((contrastSetting - 40) / 10);
          normalizedValue = js_add (Fin 0.5) (js_div (Fin (value - dataMedian c)) (Fin dataRange));
          scaledValue = js_mul (js_mul (js_sub normalizedValue (Fin 0.5)) (Fin 2))
                          (Fin contrastScale);
          scaledValue1 = js_max (Fin (- 1)) (js_min (Fin 1) scaledValue);
          scaledValue2 = js_neg scaledValue1
      in js_div (js_add scaledValue2 (Fin 1)) (Fin 2))"

text \<open>A recording whose samples are all zero: minimum, maximum and median are 0.\<close>

definition flatClient :: MEAMovieClient where
  "flatClient = scenarioClient\<lparr>dataMin := 0, dataMax := 0, dataMedian := 0\<rparr>"

subsection \<open>Spike overlay\<close>

definition SPIKE_PERSISTENCE_DURATION_SEC :: real where
  "SPIKE_PERSISTENCE_DURATION_SEC = 0.5"

text \<open>
  The state of the canvas that \<open>loadFrame\<close> and \<open>updateSpikingChannels\<close> write.
  \<open>recentSpikes\<close> is the \<open>Map\<close> from a channel to the wall-clock time at which the
  channel was first seen, in insertion order; \<open>canvasError\<close> is the \<open>error\<close> cell.
\<close>

record MEAMovieCanvas =
  frameData :: "real list option"
  spikingChannels :: "real option list"
  recentSpikes :: "(real option \<times> real) list"
  canvasError :: "error option"

definition mapHas :: "('k \<times> 'v) list \<Rightarrow> 'k \<Rightarrow> bool" where
  "mapHas m k = (k \<in> set (map fst m))"

definition mapSet :: "('k \<times> 'v) list \<Rightarrow> 'k \<Rightarrow> 'v \<Rightarrow> ('k \<times> 'v) list" where
  "mapSet m k v =
     (if mapHas m k then map (\<lambda>(k', v'). if k' = k then (k', v) else (k', v')) m
      else m @ [(k, v)])"

definition mapDelete :: "'k \<Rightarrow> ('k \<times> 'v) list \<Rightarrow> ('k \<times> 'v) list" where
  "mapDelete k m = filter (\<lambda>(k', v'). k' \<noteq> k) m"

definition updateSpikingChannels :: "real \<Rightarrow> MEAMovieCanvas \<Rightarrow> MEAMovieCanvas" where
  "updateSpikingChannels now s =
     (let persistenceDurationMs = SPIKE_PERSISTENCE_DURATION_SEC * 1000;
          expiredChannels =
            map fst (filter (\<lambda>(channelIndex, timestamp). now - timestamp > persistenceDurationMs)
                       (recentSpikes s));
          activeChannels =
            map fst (filter (\<lambda>(channelIndex, timestamp).
                               \<not> now - timestamp > persistenceDurationMs)
                       (recentSpikes s))
      in s\<lparr>recentSpikes := fold mapDelete expiredChannels (recentSpikes s),
           spikingChannels := activeChannels\<rparr>)"

text \<open>
  The opacity of the ring of a channel in the render effect; \<open>spikeTimestamp\<close> is the
  channel's entry of \<open>recentSpikes\<close>, absent when the channel is not tracked.
\<close>

definition spikeOpacity :: "bool \<Rightarrow> real option \<Rightarrow> real \<Rightarrow> real" where
  "spikeOpacity playing spikeTimestamp now =
     (let persistenceDurationMs = SPIKE_PERSISTENCE_DURATION_SEC * 1000
      in if playing \<and> spikeTimestamp \<noteq> None
         then (let age = now - the spikeTimestamp;
                   ageRatio = age / persistenceDurationMs
               in 0.9 * (1 - ageRatio))
         else 0.9)"

subsection \<open>Loading a frame\<close>

text \<open>
  \<open>loadFrame\<close> awaits \<open>getFrameData\<close>; \<open>loadFrameSettled\<close> is the rest of its body, run
  when the promise settles with \<open>result\<close>. The client, the time index and \<open>isPlaying\<close>
  are those of the render that started the call. \<open>now\<close> is the \<open>Date.now()\<close> of the
  body and \<open>now2\<close> the one of \<open>updateSpikingChannels\<close>.
\<close>

definition loadFrameSettled ::
  "MEAMovieClient \<Rightarrow> real \<Rightarrow> bool \<Rightarrow> error + real list option \<Rightarrow> real \<Rightarrow> real \<Rightarrow>
   MEAMovieCanvas \<Rightarrow> MEAMovieCanvas" where
  "loadFrameSettled c timeIndex playing result now now2 s =
     (case result of
        Inl err \<Rightarrow> s\<lparr>canvasError := Some err\<rparr>
      | Inr data \<Rightarrow>
          (let s1 = s\<lparr>frameData := data\<rparr>;
               currentSpikes = getSpikingChannels c timeIndex;
               s2 = (if playing
                     then s1\<lparr>recentSpikes :=
                            fold (\<lambda>channelIndex m.
                                    if \<not> mapHas m channelIndex then mapSet m channelIndex now
                                    else m)
                              currentSpikes (recentSpikes s1)\<rparr>
                     else s1\<lparr>spikingChannels := currentSpikes, recentSpikes := []\<rparr>)
           in if playing then updateSpikingChannels now2 s2 else s2))"

text \<open>
  The canvas with its props and the calls of \<open>loadFrame\<close> that are suspended at their
  \<open>await\<close>. The calls settle in any order, and no call checks, when it settles, that
  its index is still the selected one.
\<close>

record CanvasProps =
  propClient :: MEAMovieClient
  currentTimeIndex :: real
  propIsPlaying :: bool

record Canvas =
  props :: CanvasProps
  canvasState :: MEAMovieCanvas
  inFlight :: "CanvasProps list"

text \<open>
  Mounting the component: the \<open>useState\<close> cells and the \<open>recentSpikesRef\<close> hold their
  initial values, and the effect runs once, which starts a call of \<open>loadFrame\<close>.
\<close>

definition initialCanvasState :: MEAMovieCanvas where
  "initialCanvasState =
     \<lparr>frameData = None, spikingChannels = [], recentSpikes = [], canvasError = None\<rparr>"

definition mount :: "CanvasProps \<Rightarrow> Canvas" where
  "mount p = \<lparr>props = p, canvasState = initialCanvasState, inFlight = [p]\<rparr>"

text \<open>
  A render of the view with new props. With a changed \<open>currentTimeIndex\<close> or
  \<open>isPlaying\<close> the effect of the mounted canvas runs again and starts another call. The
  client of a mounted canvas never changes: the view gets another client only from
  \<open>load\<close>, which sets \<open>loading\<close> before it awaits \<open>create\<close>, and while \<open>loading\<close> holds
  the view returns the loading message in place of the canvas. The canvas is unmounted
  there, and a render with the new client mounts the component anew; the calls that the
  unmounted component left in flight set the state of a component that is gone.
\<close>

definition render :: "CanvasProps \<Rightarrow> Canvas \<Rightarrow> Canvas" where
  "render newProps cv =
     (if propClient newProps \<noteq> propClient (props cv) then mount newProps
      else if newProps = props cv then cv
      else cv\<lparr>props := newProps, inFlight := inFlight cv @ [newProps]\<rparr>)"

definition settle :: "nat \<Rightarrow> real \<Rightarrow> real \<Rightarrow> Canvas \<Rightarrow> Canvas" where
  "settle k now now2 cv =
     (if k < length (inFlight cv)
      then (let r = inFlight cv ! k
            in cv\<lparr>canvasState :=
                    loadFrameSettled (propClient r) (currentTimeIndex r) (propIsPlaying r)
                      (getFrameData (propClient r) (currentTimeIndex r)) now now2
                      (canvasState cv),
                  inFlight := take k (inFlight cv) @ drop (Suc k) (inFlight cv)\<rparr>)
      else cv)"

text \<open>Every call in flight was started for the recording that the canvas shows.\<close>

definition callsOfMountedClient :: "Canvas \<Rightarrow> bool" where
  "callsOfMountedClient cv =
     list_all (\<lambda>r. propClient r = propClient (props cv)) (inFlight cv)"

text \<open>
  The scenario's recording in a store that also holds the coordinates of its four
  electrodes, so that the canvas has a layout to draw the frames on.
\<close>

definition coordsDataset :: ZarrDataset where
  "coordsDataset = \<lparr>getData = (\<lambda>slice. Inr (Some [0, 0, 1, 0, 0, 1, 1, 1]))\<rparr>"

definition layoutGroup :: ZarrGroup where
  "layoutGroup =
     scenarioGroup\<lparr>getDataset :=
       (\<lambda>name. if name = ''raw_data'' then Inr (Some scenarioDataset)
                else if name = ''electrode_coords'' then Inr (Some coordsDataset)
                else Inr None)\<rparr>"

definition layoutClient :: MEAMovieClient where
  "layoutClient = scenarioClient\<lparr>zarrGroup := layoutGroup\<rparr>"

text \<open>
  A canvas mounted on that recording at index 5, not playing, whose first call of
  \<open>loadFrame\<close> is in flight.
\<close>

definition mountedCanvas :: Canvas where
  "mountedCanvas =
     mount \<lparr>propClient = layoutClient, currentTimeIndex = 5, propIsPlaying = False\<rparr>"




text \<open>
  The four-sample recording is selected on that canvas while the call for index 5 is in
  flight.
\<close>

definition otherRecordingSelected :: Canvas where
  "otherRecordingSelected =
     render \<lparr>propClient = shortClient, currentTimeIndex = 0, propIsPlaying = False\<rparr>
       mountedCanvas"

text \<open>A canvas that tracks channel 3 since time 1000 ms and channel 7 since 1400 ms.\<close>

definition trackedCanvas :: MEAMovieCanvas where
  "trackedCanvas =
     \<lparr>frameData = None, spikingChannels = [Some 3, Some 7],
      recentSpikes = [(Some 3, 1000), (Some 7, 1400)], canvasError = None\<rparr>"

text \<open>
  Layouts: the three electrodes of the specification's scenario C, and three electrodes
  of which the first two coincide.
\<close>

definition triangleLayout :: "real list" where
  "triangleLayout = [0, 0, 1, 0, 0, 1]"

definition coincidentLayout :: "real list" where
  "coincidentLayout = [0, 0, 0, 0, 1, 0]"

text \<open>The two loops of \<open>calculateMinElectrodeDistance\<close> as one loop over pairs.\<close>

definition pairStep :: "real list \<Rightarrow> nat \<times> nat \<Rightarrow> real option \<Rightarrow> real option" where
  "pairStep coords p acc = minDistStep coords (fst p) (snd p) acc"

definition loopPairs :: "nat \<Rightarrow> (nat \<times> nat) list" where
  "loopPairs n = concat (map (\<lambda>i. map (Pair i) [i + 1..<n]) [0..<n])"

section \<open>Rounding to binary64\<close>

lemma roundHalfEven_error: "\<bar>real_of_int (roundHalfEven y) - y\<bar> \<le> 1 / 2"
  unfolding roundHalfEven_def Let_def by (auto simp: abs_if) linarith+

lemma roundHalfEven_of_int [simp]: "roundHalfEven (of_int k) = k"
  by (simp add: roundHalfEven_def)

lemma roundHalfEven_nonneg: "0 \<le> y \<Longrightarrow> 0 \<le> roundHalfEven y"
  unfolding roundHalfEven_def Let_def by (auto simp: zero_le_floor) 

lemma powi_pos: "0 < (2::real) powi k"
  by (simp add: power_int_def)

lemma powi_powr: "(2::real) powi k = 2 powr (of_int k)"
  by (simp add: powr_real_of_int')

lemma floor_log2_bounds:
  assumes "x \<noteq> 0"
  shows "2 powi \<lfloor>log 2 \<bar>x\<bar>\<rfloor> \<le> \<bar>x\<bar>" and "\<bar>x\<bar> < 2 powi (\<lfloor>log 2 \<bar>x\<bar>\<rfloor> + 1)"
proof -
  have pos: "0 < \<bar>x\<bar>" using assms by simp
  have "2 powr (of_int \<lfloor>log 2 \<bar>x\<bar>\<rfloor>) \<le> \<bar>x\<bar> \<and> \<bar>x\<bar> < 2 powr (of_int \<lfloor>log 2 \<bar>x\<bar>\<rfloor> + 1)"
    using floor_log_eq_powr_iff [of "\<bar>x\<bar>" 2 "\<lfloor>log 2 \<bar>x\<bar>\<rfloor>"] pos by simp
  then show "2 powi \<lfloor>log 2 \<bar>x\<bar>\<rfloor> \<le> \<bar>x\<bar>" and "\<bar>x\<bar> < 2 powi (\<lfloor>log 2 \<bar>x\<bar>\<rfloor> + 1)"
    by (simp_all add: powi_powr)
qed

lemma binaryExponent_eq:
  assumes "2 powi k \<le> \<bar>x\<bar>" and "\<bar>x\<bar> < 2 powi (k + 1)"
  shows "binaryExponent x = max (- 1022) k"
proof -
  have pos: "0 < \<bar>x\<bar>" using assms(1) powi_pos [of k] by linarith
  have "2 powr (of_int k) \<le> \<bar>x\<bar> \<and> \<bar>x\<bar> < 2 powr (of_int k + 1)"
    using assms by (simp add: powi_powr)
  then have "\<lfloor>log 2 \<bar>x\<bar>\<rfloor> = k"
    using floor_log_eq_powr_iff [of "\<bar>x\<bar>" 2 k] pos by simp
  then show ?thesis by (simp add: binaryExponent_def)
qed

lemma binary64_eval:
  assumes "2 powi k \<le> \<bar>x\<bar>" and "\<bar>x\<bar> < 2 powi (k + 1)" and "- 1022 \<le> k"
  shows "binary64 x = of_int (roundHalfEven (x / 2 powi (k - 52))) * 2 powi (k - 52)"
proof -
  have "x \<noteq> 0" using assms(1) powi_pos [of k] by (cases "x = 0") simp_all
  moreover have "binaryExponent x = k"
    using binaryExponent_eq [OF assms(1,2)] assms(3) by simp
  ultimately show ?thesis by (simp add: binary64_def Let_def)
qed

lemma powi_neg_numeral: "(2::real) powi (- numeral n) = 1 / 2 ^ numeral n"
  by (simp add: power_int_def inverse_eq_divide power_one_over)

lemma binary64_error: "\<bar>binary64 x - x\<bar> \<le> \<bar>x\<bar> / 2 ^ 53 + 1 / 2 ^ 1075"
proof (cases "x = 0")
  case True
  then show ?thesis by (simp add: binary64_def)
next
  case False
  define e where "e = binaryExponent x"
  define ulp :: real where "ulp = 2 powi (e - 52)"
  have ulp_pos: "0 < ulp" by (simp add: ulp_def powi_pos)
  have b: "binary64 x = of_int (roundHalfEven (x / ulp)) * ulp"
    using False by (simp add: binary64_def Let_def e_def ulp_def)
  have "binary64 x - x = (of_int (roundHalfEven (x / ulp)) - x / ulp) * ulp"
    using ulp_pos by (simp add: b left_diff_distrib)
  then have "\<bar>binary64 x - x\<bar> = \<bar>of_int (roundHalfEven (x / ulp)) - x / ulp\<bar> * ulp"
    using ulp_pos by (simp add: abs_mult)
  also have "\<dots> \<le> 1 / 2 * ulp"
    using roundHalfEven_error [of "x / ulp"] ulp_pos by (simp add: mult_right_mono)
  finally have half: "\<bar>binary64 x - x\<bar> \<le> ulp / 2" by simp
  have "ulp / 2 \<le> \<bar>x\<bar> / 2 ^ 53 + 1 / 2 ^ 1075"
  proof (cases "- 1022 \<le> \<lfloor>log 2 \<bar>x\<bar>\<rfloor>")
    case True
    then have "e = \<lfloor>log 2 \<bar>x\<bar>\<rfloor>" by (simp add: e_def binaryExponent_def)
    then have "2 powi e \<le> \<bar>x\<bar>" using floor_log2_bounds(1) [OF False] by simp
    moreover have "ulp = 2 powi e / 2 ^ 52"
      by (simp add: ulp_def power_int_diff)
    ultimately have "ulp / 2 \<le> \<bar>x\<bar> / 2 ^ 53" by (simp add: field_simps)
    then show ?thesis by (smt (verit) zero_less_divide_1_iff zero_less_numeral zero_less_power)
  next
    case False
    then have "e = - 1022" by (simp add: e_def binaryExponent_def)
    then have "ulp = 1 / 2 ^ 1074"
      by (simp add: ulp_def powi_neg_numeral)
    then have "ulp / 2 = 1 / 2 ^ 1075" by simp
    then show ?thesis by simp
  qed
  with half show ?thesis by linarith
qed

lemma binary64_nonneg: "0 \<le> x \<Longrightarrow> 0 \<le> binary64 x"
  unfolding binary64_def Let_def
  by (auto intro!: mult_nonneg_nonneg roundHalfEven_nonneg divide_nonneg_pos simp: powi_pos less_imp_le)

lemma binary64_of_int:
  assumes "\<bar>k\<bar> < 2 ^ 53"
  shows "binary64 (of_int k) = of_int k"
proof (cases "k = 0")
  case True
  then show ?thesis by (simp add: binary64_def)
next
  case False
  define x where "x = real_of_int k"
  define e where "e = \<lfloor>log 2 \<bar>x\<bar>\<rfloor>"
  have x0: "x \<noteq> 0" using False by (simp add: x_def)
  have x1: "1 \<le> \<bar>x\<bar>" using False by (simp add: x_def flip: of_int_abs)
  have xhi: "\<bar>x\<bar> < 2 ^ 53"
  proof -
    have "real_of_int \<bar>k\<bar> < real_of_int (2 ^ 53)" using assms by (simp only: of_int_less_iff)
    then show ?thesis by (simp add: x_def)
  qed
  have lo: "2 powi e \<le> \<bar>x\<bar>" and hi: "\<bar>x\<bar> < 2 powi (e + 1)"
    using floor_log2_bounds [OF x0] by (simp_all add: e_def)
  have e0: "0 \<le> e"
  proof (rule ccontr)
    assume "\<not> 0 \<le> e"
    then have "e + 1 \<le> 0" by simp
    then have "(2::real) powi (e + 1) \<le> 2 powi 0"
      by (intro power_int_increasing) simp_all
    with hi x1 show False by simp
  qed
  have e52: "e \<le> 52"
  proof (rule ccontr)
    assume "\<not> e \<le> 52"
    then have "53 \<le> e" by simp
    then have "(2::real) powi 53 \<le> 2 powi e"
      by (intro power_int_increasing) simp_all
    with lo xhi show False by simp
  qed
  define j where "j = nat (52 - e)"
  have ulp: "(2::real) powi (e - 52) = 1 / 2 ^ j"
  proof -
    have "e - 52 = - int j" using e52 by (simp add: j_def)
    then show ?thesis by (simp add: power_int_minus inverse_eq_divide)
  qed
  have ex: "binaryExponent x = e"
    using e0 by (simp add: binaryExponent_def e_def)
  have "x / (1 / 2 ^ j) = real_of_int (k * 2 ^ j)"
    by (simp add: x_def)
  then have "roundHalfEven (x / (1 / 2 ^ j)) = k * 2 ^ j"
    by (simp only: roundHalfEven_of_int)
  then have "binary64 x = real_of_int (k * 2 ^ j) * (1 / 2 ^ j)"
    using x0 by (simp add: binary64_def Let_def ex ulp)
  then show ?thesis by (simp add: x_def)
qed

lemma binary64_1: "binary64 1 = 1"
  using binary64_of_int [of 1] by simp

lemma binary64_3: "binary64 3 = 3"
  using binary64_of_int [of 3] by simp

lemma binary64_5000: "binary64 5000 = 5000"
  using binary64_of_int [of 5000] by simp

lemma binary64_19999: "binary64 19999 = 19999"
  using binary64_of_int [of 19999] by simp

lemma binary64_quarter: "binary64 (1 / 4) = 1 / 4"
  by (subst binary64_eval [where k = "- 2"])
    (simp_all add: powi_neg_numeral roundHalfEven_def Let_def)

text \<open>The doubles of 0.0002, 0.00015 and 0.000175, and two products with 20000.\<close>

lemma binary64_1_5000:
  "binary64 (1 / 5000) = 7378697629483821 / 36893488147419103232"
  by (subst binary64_eval [where k = "- 13"])
    (simp_all add: powi_neg_numeral roundHalfEven_def Let_def)

lemma binary64_double_1_5000:
  "binary64 (7378697629483821 / 36893488147419103232) =
     7378697629483821 / 36893488147419103232"
  by (subst binary64_eval [where k = "- 13"])
    (simp_all add: powi_neg_numeral roundHalfEven_def Let_def)

lemma binary64_3_20000:
  "binary64 (3 / 20000) = 5534023222112865 / 36893488147419103232"
  by (subst binary64_eval [where k = "- 13"])
    (simp_all add: powi_neg_numeral roundHalfEven_def Let_def)

lemma binary64_double_3_20000:
  "binary64 (5534023222112865 / 36893488147419103232) =
     5534023222112865 / 36893488147419103232"
  by (subst binary64_eval [where k = "- 13"])
    (simp_all add: powi_neg_numeral roundHalfEven_def Let_def)

lemma binary64_7_40000:
  "binary64 (7 / 40000) = 6456360425798343 / 36893488147419103232"
  by (subst binary64_eval [where k = "- 13"])
    (simp_all add: powi_neg_numeral roundHalfEven_def Let_def)

lemma binary64_double_7_40000:
  "binary64 (6456360425798343 / 36893488147419103232) =
     6456360425798343 / 36893488147419103232"
  by (subst binary64_eval [where k = "- 13"])
    (simp_all add: powi_neg_numeral roundHalfEven_def Let_def)

text \<open>
  The products of the doubles of 0.0002 and of 0.000175 with 20000, as fractions in lowest
  terms: the first rounds down to 4, the second up to 3.5.
\<close>

lemma product_end:
  "7378697629483821 / 36893488147419103232 * 20000 =
     (4611686018427388125 / 1152921504606846976 :: real)"
  by simp

lemma product_half:
  "6456360425798343 / 36893488147419103232 * 20000 =
     (4035225266123964375 / 1152921504606846976 :: real)"
  by simp

lemma binary64_product_end:
  "binary64 (4611686018427388125 / 1152921504606846976) = 4"
  by (subst binary64_eval [where k = 2])
    (simp_all add: powi_neg_numeral roundHalfEven_def Let_def)

lemma binary64_product_half:
  "binary64 (4035225266123964375 / 1152921504606846976) = 7 / 2"
  by (subst binary64_eval [where k = 1])
    (simp_all add: powi_neg_numeral roundHalfEven_def Let_def)

lemma binary64_abs_le: "\<bar>binary64 x\<bar> \<le> 2 * \<bar>x\<bar> + 1"
proof -
  have "\<bar>binary64 x - x\<bar> \<le> \<bar>x\<bar> / 2 ^ 53 + 1 / 2 ^ 1075"
    by (rule binary64_error)
  moreover have "\<bar>x\<bar> / 2 ^ 53 \<le> \<bar>x\<bar>"
    by (simp add: divide_le_eq)
  moreover have "1 / (2::real) ^ 1075 \<le> 1" by simp
  ultimately show ?thesis by linarith
qed

lemma inDoubleRange_binary64:
  assumes "\<bar>x\<bar> \<le> 2 ^ 1020"
  shows "inDoubleRange (binary64 x)"
proof -
  have "\<bar>binary64 x\<bar> \<le> 2 * \<bar>x\<bar> + 1" by (rule binary64_abs_le)
  also have "\<dots> \<le> 2 * 2 ^ 1020 + 1" using assms by simp
  also have "\<dots> < (2::real) ^ 1024" by simp
  finally show ?thesis by (simp add: inDoubleRange_def)
qed

section \<open>Time and index conversions\<close>

text \<open>
  The error analysis of the round trip, in units of time: \<open>p\<close> is the sample period,
  \<open>N\<close> the duration, \<open>eta\<close> and \<open>zeta\<close> the underflow terms, and \<open>1 / 9007199254740992\<close>
  is the unit roundoff \<open>2 powi (- 53)\<close>.
\<close>

lemma roundtrip_linear:
  fixes s t N p A E d X R I q rt eta zeta :: real
  assumes p: "0 < p" "p \<le> N"
    and eta: "0 \<le> eta" "eta \<le> p / 9007199254740992 / 16"
    and zeta: "0 \<le> zeta" "zeta \<le> p / 9007199254740992 / 16"
    and A: "\<bar>A - N\<bar> \<le> N / 9007199254740992 + eta"
    and E: "\<bar>E - (s + A)\<bar> \<le> \<bar>s + A\<bar> / 9007199254740992 + eta"
    and t: "s \<le> t" "t \<le> E"
    and d: "\<bar>d - (t - s)\<bar> \<le> \<bar>t - s\<bar> / 9007199254740992 + eta" "0 \<le> d"
    and X: "\<bar>X - d\<bar> \<le> \<bar>d\<bar> / 9007199254740992 + zeta"
    and R: "\<bar>R - X\<bar> \<le> p / 2" "0 \<le> R"
    and I: "I = max 0 (min (N - p) R)"
    and q: "\<bar>q - I\<bar> \<le> \<bar>I\<bar> / 9007199254740992 + eta"
    and rt: "\<bar>rt - (s + q)\<bar> \<le> \<bar>s + q\<bar> / 9007199254740992 + eta"
  shows "\<bar>rt - t\<bar> \<le> p + (\<bar>s\<bar> + N) / 562949953421312"
proof -
  define D where "D = t - s"
  have D0: "0 \<le> D" using t by (simp add: D_def)
  have N0: "0 < N" using p by argo
  have A_le: "A \<le> N + N / 9007199254740992 + eta" and A0: "0 \<le> A"
    using A N0 eta p by argo+
  have sA: "\<bar>s + A\<bar> \<le> \<bar>s\<bar> + A" using A0 by argo
  have "E - s \<le> A + (\<bar>s\<bar> + A) / 9007199254740992 + eta"
    using E sA by argo
  then have Es: "E - s \<le> N + 3 * N / 9007199254740992 + \<bar>s\<bar> / 9007199254740992 + 3 * eta"
    using A_le N0 eta by argo
  have D_le: "D \<le> N + 3 * N / 9007199254740992 + \<bar>s\<bar> / 9007199254740992 + 3 * eta"
    using Es t by (simp add: D_def)
  have dD: "\<bar>d - D\<bar> \<le> D / 9007199254740992 + eta"
    using d D0 by (simp add: D_def)
  have XD: "\<bar>X - D\<bar> \<le> 3 * D / 9007199254740992 + 2 * eta + zeta"
    using X dD d(2) D0 eta by argo
  have XD2: "\<bar>X - D\<bar> \<le> 4 * N / 9007199254740992 + \<bar>s\<bar> / 9007199254740992 + 3 * eta + zeta"
    using XD D_le D0 N0 eta by argo
  have I0: "0 \<le> I" and I_le: "I \<le> N - p"
    using I p by (auto simp: max_def min_def)
  have ID: "\<bar>I - D\<bar> \<le> p + 4 * N / 9007199254740992 + \<bar>s\<bar> / 9007199254740992 + 3 * eta + zeta"
  proof (cases "R \<le> N - p")
    case True
    then have "I = R" using I R(2) by (simp add: max_def min_def)
    then show ?thesis using R(1) XD2 p by argo
  next
    case False
    then have IM: "I = N - p" using I p by (simp add: max_def min_def)
    have up: "I - D \<le> p + 4 * N / 9007199254740992 + \<bar>s\<bar> / 9007199254740992 + 3 * eta + zeta"
      using IM False R(1) XD2 p by argo
    have down: "D - I \<le> p + 4 * N / 9007199254740992 + \<bar>s\<bar> / 9007199254740992 + 3 * eta + zeta"
      using IM D_le N0 zeta by argo
    from up down show ?thesis by argo
  qed
  have qI: "\<bar>q - I\<bar> \<le> N / 9007199254740992 + eta"
    using q I0 I_le p by argo
  have rtq: "\<bar>rt - (s + q)\<bar> \<le> \<bar>s\<bar> / 9007199254740992 + 2 * N / 9007199254740992 + 2 * eta"
    using rt qI I0 I_le p eta N0 by argo
  have "rt - t = (rt - (s + q)) + (q - I) + (I - D)"
    by (simp add: D_def)
  then have "\<bar>rt - t\<bar> \<le> \<bar>rt - (s + q)\<bar> + \<bar>q - I\<bar> + \<bar>I - D\<bar>"
    by argo
  then have "\<bar>rt - t\<bar> \<le> p + 2 * \<bar>s\<bar> / 9007199254740992 + 7 * N / 9007199254740992
      + 6 * eta + zeta"
    using rtq qI ID by argo
  then show ?thesis using eta zeta p N0 by argo
qed

lemma endTimeSec_scenarioClient: "endTimeSec scenarioClient = 1"
  by (simp add: endTimeSec_def scenarioClient_def binary64_1)

lemma getIndexFromTime_scenario_quarter: "getIndexFromTime scenarioClient (1 / 4) = 5000"
  by (simp add: getIndexFromTime_def scenarioClient_def binary64_quarter binary64_5000
      binary64_19999)

lemma binary64_error_eta:
  assumes "eta = 1 / 2 ^ 1075"
  shows "\<bar>binary64 x - x\<bar> \<le> \<bar>x\<bar> / 9007199254740992 + eta"
  using binary64_error [of x] assms by simp

lemma divide_max_min:
  fixes f a b :: real
  assumes "0 < f"
  shows "max 0 (min a b) / f = max 0 (min (a / f) (b / f))"
  using assms by (auto simp: max_def min_def divide_le_cancel zero_le_divide_iff)

lemma getIndexFromTime_in_range:
  assumes "numTimepoints c = real_of_int k" "1 \<le> k" "k \<le> 2 ^ 53"
  shows "0 \<le> getIndexFromTime c t \<and> getIndexFromTime c t \<le> numTimepoints c - 1"
proof -
  have "\<bar>k - 1\<bar> < 2 ^ 53" using assms(2,3) by simp
  then have "binary64 (real_of_int (k - 1)) = real_of_int (k - 1)"
    by (rule binary64_of_int)
  then have "binary64 (numTimepoints c - 1) = numTimepoints c - 1"
    by (simp add: assms(1))
  moreover have "1 \<le> numTimepoints c" using assms by simp
  ultimately show ?thesis
    by (auto simp: getIndexFromTime_def Let_def max_def min_def)
qed

text \<open>
  Under the bounds of the statement below, no operation of the two conversions and of
  the end time overflows.
\<close>

lemma conversions_inDoubleRange:
  assumes fs: "1 / 2 ^ 500 \<le> samplingFrequencyHz c" "samplingFrequencyHz c \<le> 2 ^ 500"
    and n: "numTimepoints c = real_of_int k" "1 \<le> k" "k \<le> 2 ^ 53"
    and st: "\<bar>startTimeSec c\<bar> \<le> 2 ^ 500" "\<bar>t\<bar> \<le> 2 ^ 500"
  shows "inDoubleRange (binary64 (t - startTimeSec c)) \<and>
         inDoubleRange (binary64 (binary64 (t - startTimeSec c) * samplingFrequencyHz c)) \<and>
         inDoubleRange (binary64 (numTimepoints c - 1)) \<and>
         inDoubleRange (binary64 (getIndexFromTime c t / samplingFrequencyHz c)) \<and>
         inDoubleRange (getTimeFromIndex c (getIndexFromTime c t)) \<and>
         inDoubleRange (binary64 (numTimepoints c / samplingFrequencyHz c)) \<and>
         inDoubleRange (endTimeSec c)"
proof -
  define s where "s = startTimeSec c"
  define f where "f = samplingFrequencyHz c"
  define nn where "nn = numTimepoints c"
  define d where "d = binary64 (t - s)"
  define I where "I = getIndexFromTime c t"
  have fpos: "0 < f" 
  proof -
    have "(0::real) < 1 / 2 ^ 500" by simp
    then show ?thesis using fs(1) unfolding f_def by linarith
  qed
  have inv: "1 / f \<le> 2 ^ 500"
  proof -
    have "1 \<le> f * 2 ^ 500" using fs(1) by (simp add: f_def divide_le_eq)
    then show ?thesis using fpos by (simp add: divide_le_eq mult.commute)
  qed
  have nn: "1 \<le> nn" "nn \<le> 2 ^ 53"
  proof -
    show "1 \<le> nn" using n by (simp add: nn_def)
    have "real_of_int k \<le> real_of_int (2 ^ 53)" using n(3) by (rule of_int_le_iff [THEN iffD2])
    then show "nn \<le> 2 ^ 53" by (simp add: nn_def n(1))
  qed
  have ts: "\<bar>t - s\<bar> \<le> 2 ^ 501" using st by (simp add: s_def)
  then have r1: "inDoubleRange d"
    unfolding d_def by (intro inDoubleRange_binary64) (simp add: order_trans)
  have "\<bar>d\<bar> \<le> 2 * \<bar>t - s\<bar> + 1" unfolding d_def by (rule binary64_abs_le)
  then have dle: "\<bar>d\<bar> \<le> 2 ^ 503" using ts by simp
  have "\<bar>d * f\<bar> = \<bar>d\<bar> * f" using fpos by (simp add: abs_mult)
  also have "\<dots> \<le> 2 ^ 503 * 2 ^ 500"
    using dle fs(2) fpos by (intro mult_mono) (simp_all add: f_def)
  also have "\<dots> \<le> (2::real) ^ 1020" by simp
  finally have r2: "inDoubleRange (binary64 (d * f))" by (rule inDoubleRange_binary64)
  have r3: "inDoubleRange (binary64 (nn - 1))"
    using nn by (intro inDoubleRange_binary64) simp
  have Ib: "0 \<le> I" "I \<le> nn - 1"
    using getIndexFromTime_in_range [OF n, of t] by (simp_all add: I_def nn_def)
  have N: "nn / f \<le> 2 ^ 53 * 2 ^ 500"
  proof -
    have "nn / f = nn * (1 / f)" by simp
    also have "\<dots> \<le> 2 ^ 53 * 2 ^ 500" using nn inv fpos by (intro mult_mono) simp_all
    finally show ?thesis .
  qed
  have If: "0 \<le> I / f" "I / f \<le> 2 ^ 53 * 2 ^ 500"
  proof -
    show "0 \<le> I / f" using Ib fpos by simp
    have "I / f \<le> nn / f" using Ib fpos by (simp add: divide_right_mono)
    then show "I / f \<le> 2 ^ 53 * 2 ^ 500" using N by linarith
  qed
  then have r4: "inDoubleRange (binary64 (I / f))"
    by (intro inDoubleRange_binary64) simp
  have "\<bar>binary64 (I / f)\<bar> \<le> 2 * \<bar>I / f\<bar> + 1" by (rule binary64_abs_le)
  then have "\<bar>s + binary64 (I / f)\<bar> \<le> 2 ^ 500 + (2 * (2 ^ 53 * 2 ^ 500) + 1)"
    using If st(1) unfolding s_def by linarith
  also have "\<dots> \<le> (2::real) ^ 1020" by simp
  finally have r5: "inDoubleRange (getTimeFromIndex c I)"
    unfolding getTimeFromIndex_def s_def [symmetric] f_def [symmetric]
    by (rule inDoubleRange_binary64)
  have N0: "0 \<le> nn / f" using nn fpos by simp
  then have r6: "inDoubleRange (binary64 (nn / f))"
    using N by (intro inDoubleRange_binary64) simp
  have "\<bar>binary64 (nn / f)\<bar> \<le> 2 * \<bar>nn / f\<bar> + 1" by (rule binary64_abs_le)
  then have "\<bar>s + binary64 (nn / f)\<bar> \<le> 2 ^ 500 + (2 * (2 ^ 53 * 2 ^ 500) + 1)"
    using N N0 st(1) unfolding s_def by linarith
  also have "\<dots> \<le> (2::real) ^ 1020" by simp
  finally have r7: "inDoubleRange (endTimeSec c)"
    unfolding endTimeSec_def s_def [symmetric] f_def [symmetric] nn_def [symmetric]
    by (rule inDoubleRange_binary64)
  from r1 r2 r3 r4 r5 r6 r7 show ?thesis
    by (simp add: d_def I_def s_def f_def nn_def)
qed


text \<open>
  Claim C2, as the code has it. \<open>timeToIndex t\<close> is the rounded sample offset, the
  difference and the product each rounded to binary64, clamped into
  \<open>[0, sampleCount - 1]\<close>, for every \<open>t\<close>; and for every \<open>t\<close> between the start time and
  the end time, \<open>indexToTime (timeToIndex t)\<close> is within one sample period of \<open>t\<close> up to
  a rounding error of at most \<open>(\<bar>startTime\<bar> + sampleCount / samplingFrequency) / 2 ^ 49\<close>.
  The sample count is a positive integer up to \<open>2 ^ 53\<close>, the sampling frequency is
  between \<open>1 / 2 ^ 500\<close> and \<open>2 ^ 500\<close>, and the start time and \<open>t\<close> are at most
  \<open>2 ^ 500\<close> in absolute value.
\<close>

theorem getIndexFromTime_roundtrip_binary64:
  assumes lo: "1 / 2 ^ 500 \<le> samplingFrequencyHz c"
    and hi: "samplingFrequencyHz c \<le> 2 ^ 500"
    and n: "numTimepoints c = real_of_int k" "1 \<le> k" "k \<le> 2 ^ 53"
    and st: "\<bar>startTimeSec c\<bar> \<le> 2 ^ 500" "\<bar>t\<bar> \<le> 2 ^ 500"
  shows "getIndexFromTime c t = spec_timeToIndex c t \<and>
         0 \<le> getIndexFromTime c t \<and> getIndexFromTime c t \<le> numTimepoints c - 1 \<and>
         (startTimeSec c \<le> t \<and> t \<le> endTimeSec c \<longrightarrow>
            \<bar>getTimeFromIndex c (getIndexFromTime c t) - t\<bar>
              \<le> 1 / samplingFrequencyHz c +
                (\<bar>startTimeSec c\<bar> + numTimepoints c / samplingFrequencyHz c) / 2 ^ 49)"
proof -
  define s where "s = startTimeSec c"
  define f where "f = samplingFrequencyHz c"
  define nn where "nn = numTimepoints c"
  define xh where "xh = binary64 (binary64 (t - s) * f)"
  define r where "r = real_of_int (round xh)"
  have "(0::real) < 1 / 2 ^ 500" by simp
  with lo hi have fs: "0 < samplingFrequencyHz c" "samplingFrequencyHz c \<le> 2 ^ 500"
    by simp_all
  have fpos: "0 < f" using fs by (simp add: f_def)
  have n1: "1 \<le> nn" using n by (simp add: nn_def)
  have "\<bar>k - 1\<bar> < 2 ^ 53" using n(2,3) by simp
  then have "binary64 (real_of_int (k - 1)) = real_of_int (k - 1)"
    by (rule binary64_of_int)
  then have m: "binary64 (nn - 1) = nn - 1"
    by (simp add: nn_def n(1))
  have idx: "getIndexFromTime c t = max 0 (min (nn - 1) r)"
    by (simp add: getIndexFromTime_def Let_def m r_def xh_def s_def f_def nn_def [symmetric])
  have spec: "spec_timeToIndex c t = spec_clamp 0 (nn - 1) r"
    by (simp add: spec_timeToIndex_def r_def xh_def s_def f_def nn_def)
  have eq: "getIndexFromTime c t = spec_timeToIndex c t"
    using n1 by (auto simp: idx spec spec_clamp_def max_def min_def)
  have bounds: "0 \<le> getIndexFromTime c t \<and> getIndexFromTime c t \<le> nn - 1"
    using n1 by (auto simp: idx max_def min_def)
  have trip: "\<bar>getTimeFromIndex c (getIndexFromTime c t) - t\<bar>
      \<le> 1 / f + (\<bar>s\<bar> + nn / f) / 2 ^ 49"
    if range: "s \<le> t \<and> t \<le> endTimeSec c"
  proof -
    define eta :: real where "eta = 1 / 2 ^ 1075"
    define p where "p = 1 / f"
    define N where "N = nn / f"
    define zeta where "zeta = eta / f"
    define A where "A = binary64 N"
    define E where "E = binary64 (s + A)"
    define d where "d = binary64 (t - s)"
    define X where "X = xh / f"
    define R where "R = r / f"
    define I where "I = max 0 (min (nn - 1) r) / f"
    define q where "q = binary64 I"
    define rt where "rt = binary64 (s + q)"
    have E_eq: "endTimeSec c = E"
      by (simp add: endTimeSec_def E_def A_def N_def s_def f_def nn_def)
    have rt_eq: "getTimeFromIndex c (getIndexFromTime c t) = rt"
      by (simp add: getTimeFromIndex_def idx rt_def q_def I_def s_def f_def)
    have p0: "0 < p" using fpos by (simp add: p_def)
    have pN: "p \<le> N" using fpos n1 by (simp add: p_def N_def divide_right_mono)
    have eta0: "0 \<le> eta" by (simp add: eta_def)
    have "f * 2 ^ 57 \<le> 2 ^ 500 * 2 ^ 57"
      using fs(2) by (simp add: f_def)
    also have "\<dots> \<le> (2::real) ^ 1075" by simp
    finally have "1 / (2::real) ^ 1075 \<le> 1 / (f * 2 ^ 57)"
      using fpos by (intro divide_left_mono) simp_all
    then have eta1: "eta \<le> p / 9007199254740992 / 16"
      by (simp add: eta_def p_def)
    have eta_small: "eta \<le> 1 / 9007199254740992 / 16"
      by (simp add: eta_def)
    have zeta0: "0 \<le> zeta" using fpos eta0 by (simp add: zeta_def)
    have "eta / f \<le> (1 / 9007199254740992 / 16) / f"
      using eta_small fpos by (rule divide_right_mono [OF _ less_imp_le])
    then have zeta1: "zeta \<le> p / 9007199254740992 / 16"
      by (simp add: zeta_def p_def)
    have N0: "0 < N" using p0 pN by linarith
    have A: "\<bar>A - N\<bar> \<le> N / 9007199254740992 + eta"
      using binary64_error_eta [OF eta_def, of N] N0 by (simp add: A_def)
    have E: "\<bar>E - (s + A)\<bar> \<le> \<bar>s + A\<bar> / 9007199254740992 + eta"
      using binary64_error_eta [OF eta_def, of "s + A"] by (simp add: E_def)
    have t: "s \<le> t" "t \<le> E" using range by (simp_all add: E_eq)
    have d: "\<bar>d - (t - s)\<bar> \<le> \<bar>t - s\<bar> / 9007199254740992 + eta"
      using binary64_error_eta [OF eta_def, of "t - s"] by (simp add: d_def)
    have d0: "0 \<le> d"
      unfolding d_def using t(1) by (intro binary64_nonneg) simp
    have xh0: "0 \<le> xh"
      unfolding xh_def d_def [symmetric] using d0 fpos by (intro binary64_nonneg) simp
    have "\<bar>xh - d * f\<bar> \<le> \<bar>d * f\<bar> / 9007199254740992 + eta"
      using binary64_error_eta [OF eta_def, of "d * f"] by (simp add: xh_def d_def)
    then have "\<bar>xh - d * f\<bar> / f \<le> (\<bar>d * f\<bar> / 9007199254740992 + eta) / f"
      using fpos by (intro divide_right_mono) simp_all
    moreover have "\<bar>xh - d * f\<bar> / f = \<bar>X - d\<bar>"
    proof -
      have "X - d = (xh - d * f) / f" using fpos by (simp add: X_def diff_divide_distrib)
      then show ?thesis using fpos by (simp add: abs_divide)
    qed
    moreover have "(\<bar>d * f\<bar> / 9007199254740992 + eta) / f = \<bar>d\<bar> / 9007199254740992 + zeta"
      using fpos by (simp add: zeta_def abs_mult add_divide_distrib)
    ultimately have X: "\<bar>X - d\<bar> \<le> \<bar>d\<bar> / 9007199254740992 + zeta"
      by simp
    have "\<bar>r - xh\<bar> \<le> 1 / 2"
      unfolding r_def by (rule of_int_round_abs_le)
    then have "\<bar>r - xh\<bar> / f \<le> (1 / 2) / f"
      using fpos by (intro divide_right_mono) simp_all
    moreover have "\<bar>r - xh\<bar> / f = \<bar>R - X\<bar>"
    proof -
      have "R - X = (r - xh) / f" by (simp add: R_def X_def diff_divide_distrib)
      then show ?thesis using fpos by (simp add: abs_divide)
    qed
    ultimately have R: "\<bar>R - X\<bar> \<le> p / 2"
      by (simp add: p_def)
    have "0 \<le> round xh" using round_mono [OF xh0] by simp
    then have "0 \<le> r" by (simp add: r_def)
    then have R0: "0 \<le> R" using fpos by (simp add: R_def)
    have I: "I = max 0 (min (N - p) R)"
      unfolding I_def divide_max_min [OF fpos]
      by (simp add: N_def p_def R_def diff_divide_distrib)
    have q: "\<bar>q - I\<bar> \<le> \<bar>I\<bar> / 9007199254740992 + eta"
      using binary64_error_eta [OF eta_def, of I] by (simp add: q_def)
    have rt: "\<bar>rt - (s + q)\<bar> \<le> \<bar>s + q\<bar> / 9007199254740992 + eta"
      using binary64_error_eta [OF eta_def, of "s + q"] by (simp add: rt_def)
    have "\<bar>rt - t\<bar> \<le> p + (\<bar>s\<bar> + N) / 562949953421312"
      by (rule roundtrip_linear [OF p0 pN eta0 eta1 zeta0 zeta1 A E t d d0 X R R0 I q rt])
    then show ?thesis
      by (simp add: rt_eq p_def N_def)
  qed
  from eq bounds trip show ?thesis
    by (simp add: s_def f_def nn_def)
qed

lemma endTimeSec_shortClient:
  "endTimeSec shortClient = 7378697629483821 / 36893488147419103232"
  by (simp add: endTimeSec_def shortClient_def scenarioClient_def binary64_1_5000
      binary64_double_1_5000)

lemma getIndexFromTime_shortClient_end:
  "getIndexFromTime shortClient (7378697629483821 / 36893488147419103232) = 3"
  by (simp add: getIndexFromTime_def shortClient_def scenarioClient_def
      binary64_double_1_5000 binary64_product_end binary64_3)

lemma getTimeFromIndex_shortClient_3:
  "getTimeFromIndex shortClient 3 = 5534023222112865 / 36893488147419103232"
  by (simp add: getTimeFromIndex_def shortClient_def scenarioClient_def binary64_3_20000
      binary64_double_3_20000)

lemma getIndexFromTime_scenario_175:
  "getIndexFromTime scenarioClient (6456360425798343 / 36893488147419103232) = 4"
  by (simp add: getIndexFromTime_def scenarioClient_def
      binary64_double_7_40000 binary64_product_half round_def binary64_19999)

lemma exact_round_scenario_175:
  "round ((6456360425798343 / 36893488147419103232 - startTimeSec scenarioClient) *
      samplingFrequencyHz scenarioClient) = 3"
  by (simp add: scenarioClient_def round_def)


text \<open>
  The four-sample recording at its end time, the double of 0.0002, which is the time the
  view publishes when playback ends: the index is clamped to 3 and the round trip is
  within the bound with the rounding term.
\<close>

theorem getIndexFromTime_roundtrip_binary64_witness:
  "1 / 2 ^ 500 \<le> samplingFrequencyHz shortClient \<and>
   samplingFrequencyHz shortClient \<le> 2 ^ 500 \<and>
   numTimepoints shortClient = real_of_int 4 \<and> (1::int) \<le> 4 \<and> (4::int) \<le> 2 ^ 53 \<and>
   \<bar>startTimeSec shortClient\<bar> \<le> 2 ^ 500 \<and> \<bar>endTimeSec shortClient\<bar> \<le> 2 ^ 500 \<and>
   startTimeSec shortClient \<le> endTimeSec shortClient \<and>
   getIndexFromTime shortClient (endTimeSec shortClient) =
     spec_timeToIndex shortClient (endTimeSec shortClient) \<and>
   getIndexFromTime shortClient (endTimeSec shortClient) = 3 \<and>
   \<bar>getTimeFromIndex shortClient (getIndexFromTime shortClient (endTimeSec shortClient))
      - endTimeSec shortClient\<bar>
     \<le> 1 / samplingFrequencyHz shortClient +
       (\<bar>startTimeSec shortClient\<bar> +
        numTimepoints shortClient / samplingFrequencyHz shortClient) / 2 ^ 49"
proof -
  have lo: "1 / 2 ^ 500 \<le> samplingFrequencyHz shortClient"
    and hi: "samplingFrequencyHz shortClient \<le> 2 ^ 500"
    by (simp_all add: shortClient_def scenarioClient_def)
  have st: "\<bar>startTimeSec shortClient\<bar> \<le> 2 ^ 500" "\<bar>endTimeSec shortClient\<bar> \<le> 2 ^ 500"
    by (simp_all add: endTimeSec_shortClient) (simp add: shortClient_def scenarioClient_def)
  have n: "numTimepoints shortClient = real_of_int 4" "(1::int) \<le> 4" "(4::int) \<le> 2 ^ 53"
    by (simp_all add: shortClient_def)
  have range: "startTimeSec shortClient \<le> endTimeSec shortClient \<and>
      endTimeSec shortClient \<le> endTimeSec shortClient"
    by (simp add: endTimeSec_shortClient) (simp add: shortClient_def scenarioClient_def)
  have idx: "getIndexFromTime shortClient (endTimeSec shortClient) = 3"
    by (simp add: endTimeSec_shortClient getIndexFromTime_shortClient_end)
  from getIndexFromTime_roundtrip_binary64 [OF lo hi n st] lo hi n st range idx
  show ?thesis by blast
qed

text \<open>
  At that end time the round trip is the double of 0.00015, further than one sample
  period, 0.00005, from the double of 0.0002. And on the double of 0.000175 the code's
  index is 4, where the product in exact arithmetic rounds to 3.
\<close>

theorem roundtrip_exceeds_sample_period_counterexample:
  "endTimeSec shortClient = binary64 (1 / 5000) \<and>
   startTimeSec shortClient \<le> endTimeSec shortClient \<and>
   getIndexFromTime shortClient (endTimeSec shortClient) = 3 \<and>
   getTimeFromIndex shortClient 3 = binary64 (3 / 20000) \<and>
   1 / samplingFrequencyHz shortClient
     < \<bar>getTimeFromIndex shortClient (getIndexFromTime shortClient (endTimeSec shortClient))
         - endTimeSec shortClient\<bar> \<and>
   getIndexFromTime scenarioClient (binary64 (7 / 40000)) = 4 \<and>
   round ((binary64 (7 / 40000) - startTimeSec scenarioClient) *
      samplingFrequencyHz scenarioClient) = 3"
proof -
  have e: "endTimeSec shortClient = binary64 (1 / 5000)"
    by (simp add: endTimeSec_shortClient binary64_1_5000)
  have s: "startTimeSec shortClient \<le> endTimeSec shortClient"
    by (simp add: endTimeSec_shortClient) (simp add: shortClient_def scenarioClient_def)
  have i: "getIndexFromTime shortClient (endTimeSec shortClient) = 3"
    by (simp add: endTimeSec_shortClient getIndexFromTime_shortClient_end)
  have t: "getTimeFromIndex shortClient 3 = binary64 (3 / 20000)"
    by (simp add: getTimeFromIndex_shortClient_3 binary64_3_20000)
  have far: "1 / samplingFrequencyHz shortClient
      < \<bar>getTimeFromIndex shortClient (getIndexFromTime shortClient (endTimeSec shortClient))
          - endTimeSec shortClient\<bar>"
  proof -
    have fs: "samplingFrequencyHz shortClient = 20000"
      by (simp add: shortClient_def scenarioClient_def)
    show ?thesis
      by (simp add: fs endTimeSec_shortClient getIndexFromTime_shortClient_end
          getTimeFromIndex_shortClient_3)
  qed
  have j: "getIndexFromTime scenarioClient (binary64 (7 / 40000)) = 4"
    by (simp add: binary64_7_40000 getIndexFromTime_scenario_175)
  have r: "round ((binary64 (7 / 40000) - startTimeSec scenarioClient) *
      samplingFrequencyHz scenarioClient) = 3"
    by (simp only: binary64_7_40000 exact_round_scenario_175)
  from e s i t far j r show ?thesis by blast
qed

section \<open>The spike index\<close>

lemma spikeLoopBody_lookup:
  "spikeLoopBody frames chans i m key =
     (if typedArrayGet frames i = key
      then Some (setAdd (case m key of None \<Rightarrow> [] | Some xs \<Rightarrow> xs) (typedArrayGet chans i))
      else m key)"
  by (simp add: spikeLoopBody_def Let_def split: option.splits)

lemma set_setAdd: "set (setAdd xs x) = insert x (set xs)"
  by (auto simp: setAdd_def)

lemma distinct_setAdd: "distinct xs \<Longrightarrow> distinct (setAdd xs x)"
  by (simp add: setAdd_def)

lemma channelsOf_step:
  "channelsOf (spikeLoopBody frames chans i m) key =
     (if typedArrayGet frames i = key then setAdd (channelsOf m key) (typedArrayGet chans i)
      else channelsOf m key)"
  by (simp add: channelsOf_def spikeLoopBody_lookup)

lemma channelsOf_fold_set:
  "set (channelsOf (fold (spikeLoopBody frames chans) ks m) key) =
     set (channelsOf m key) \<union>
     {ch. \<exists>k. k \<in> set ks \<and> typedArrayGet frames k = key \<and> typedArrayGet chans k = ch}"
proof (induction ks arbitrary: m)
  case Nil
  then show ?case by simp
next
  case (Cons k ks)
  show ?case
    by (simp add: Cons.IH channelsOf_step set_setAdd) blast
qed

lemma channelsOf_fold_distinct:
  "distinct (channelsOf m key) \<Longrightarrow>
   distinct (channelsOf (fold (spikeLoopBody frames chans) ks m) key)"
proof (induction ks arbitrary: m)
  case Nil
  then show ?case by simp
next
  case (Cons k ks)
  show ?case
    using Cons.prems by (simp add: Cons.IH channelsOf_step distinct_setAdd)
qed

lemma loopCount_less: "k < loopCount n \<longleftrightarrow> real k < n"
proof -
  have "k < nat \<lceil>n\<rceil> \<longleftrightarrow> int k < \<lceil>n\<rceil>"
    by (simp add: zless_nat_eq_int_zless)
  also have "\<dots> \<longleftrightarrow> real_of_int (int k) < n"
    by (rule less_ceiling_iff)
  finally show ?thesis by (simp add: loopCount_def)
qed

lemma loadSpikeData_result:
  assumes "loadSpikeData c0 = Inr c" and "0 < numSpikes c0"
  shows "numSpikes c = numSpikes c0 \<and>
         (\<exists>frames chans. spikeFrameIndices c = Some frames \<and> spikeChannelIndices c = Some chans \<and>
            spikesByFrame c = Some (fold (spikeLoopBody frames chans)
                                     [0..<loopCount (numSpikes c0)] Map.empty))"
proof -
  have pos: "0 < loopCount (numSpikes c0)"
    using assms(2) by (simp add: loopCount_less [symmetric] loopCount_def)
  show ?thesis
    using assms(1) pos
    by (auto simp: loadSpikeData_def Let_def split: sum.splits option.splits)
qed

lemma create_Inr_D:
  assumes "create zg = Inr c"
  shows "\<exists>rawData nt nc fs st dmin dmax dmed.
           getDataset zg ''raw_data'' = Inr (Some rawData) \<and>
           attrs zg ''num_timepoints'' = Some nt \<and> attrs zg ''num_channels'' = Some nc \<and>
           attrs zg ''sampling_frequency_hz'' = Some fs \<and>
           attrs zg ''start_time_sec'' = Some st \<and> attrs zg ''data_min'' = Some dmin \<and>
           attrs zg ''data_max'' = Some dmax \<and> attrs zg ''data_median'' = Some dmed \<and>
           (let ns = (case attrs zg ''num_spikes'' of None \<Rightarrow> 0 | Some v \<Rightarrow> v);
                c0 = newMEAMovieClient zg nt nc fs st dmin dmax dmed rawData ns
            in (if ns > 0 then loadSpikeData c0 else Inr c0) = Inr c)"
proof (cases "getDataset zg ''raw_data''")
  case (Inl msg)
  with assms show ?thesis by (simp add: create_def Let_def)
next
  case (Inr r)
  show ?thesis
  proof (cases r)
    case None
    with Inr assms show ?thesis by (simp add: create_def Let_def)
  next
    case (Some rawData)
    with Inr assms show ?thesis
      by (auto simp: create_def Let_def split: if_splits)
  qed
qed

lemma create_spikes:
  assumes "create zg = Inr c"
  shows "(numSpikes c \<le> 0 \<and> spikesByFrame c = None) \<or>
         (0 < numSpikes c \<and>
          (\<exists>frames chans. spikeFrameIndices c = Some frames \<and> spikeChannelIndices c = Some chans \<and>
            spikesByFrame c = Some (fold (spikeLoopBody frames chans)
                                     [0..<loopCount (numSpikes c)] Map.empty)))"
proof -
  from create_Inr_D [OF assms] obtain rawData nt nc fs st dmin dmax dmed ns where
      cr0: "(if ns > 0
             then loadSpikeData (newMEAMovieClient zg nt nc fs st dmin dmax dmed rawData ns)
             else Inr (newMEAMovieClient zg nt nc fs st dmin dmax dmed rawData ns)) = Inr c"
    unfolding Let_def by blast
  define c0 where "c0 = newMEAMovieClient zg nt nc fs st dmin dmax dmed rawData ns"
  have sb: "spikesByFrame c0 = None" and ns: "numSpikes c0 = ns"
    by (simp_all add: c0_def newMEAMovieClient_def)
  have cr: "(if numSpikes c0 > 0 then loadSpikeData c0 else Inr c0) = Inr c"
    using cr0 unfolding ns c0_def [symmetric] .
  show ?thesis
  proof (cases "numSpikes c0 > 0")
    case True
    then have "loadSpikeData c0 = Inr c" using cr by simp
    from loadSpikeData_result [OF this True] True show ?thesis by auto
  next
    case False
    then have "c = c0" using cr by simp
    then show ?thesis using False sb by simp
  qed
qed

text \<open>
  Claim C9. For a client returned by \<open>create\<close> and every frame index \<open>i\<close>,
  \<open>getSpikingChannels i\<close> holds exactly the channels \<open>spikeChannelIndices[k]\<close> of the
  \<open>k < numSpikes\<close> with \<open>spikeFrameIndices[k] = i\<close>, each once; it is empty when no
  spike is at \<open>i\<close> and when \<open>numSpikes = 0\<close>.
\<close>

theorem getSpikingChannels_exact:
  assumes "create zg = Inr c"
  shows "set (getSpikingChannels c i) =
           {ch. \<exists>k. real k < numSpikes c \<and> spikeArrayGet (spikeFrameIndices c) k = Some i \<and>
                    spikeArrayGet (spikeChannelIndices c) k = ch} \<and>
         distinct (getSpikingChannels c i) \<and>
         (numSpikes c = 0 \<longrightarrow> getSpikingChannels c i = []) \<and>
         ((\<forall>k. real k < numSpikes c \<longrightarrow> spikeArrayGet (spikeFrameIndices c) k \<noteq> Some i) \<longrightarrow>
            getSpikingChannels c i = [])"
proof -
  have gs: "getSpikingChannels c i = (case spikesByFrame c of None \<Rightarrow> [] | Some m \<Rightarrow> channelsOf m (Some i))"
    by (simp add: getSpikingChannels_def channelsOf_def split: option.splits)
  have main: "set (getSpikingChannels c i) =
           {ch. \<exists>k. real k < numSpikes c \<and> spikeArrayGet (spikeFrameIndices c) k = Some i \<and>
                    spikeArrayGet (spikeChannelIndices c) k = ch} \<and>
         distinct (getSpikingChannels c i)"
    using create_spikes [OF assms]
  proof
    assume a: "numSpikes c \<le> 0 \<and> spikesByFrame c = None"
    then have "\<And>k. \<not> real k < numSpikes c"
      by (smt (verit) of_nat_0_le_iff)
    with a show ?thesis by (simp add: gs)
  next
    assume "0 < numSpikes c \<and>
          (\<exists>frames chans. spikeFrameIndices c = Some frames \<and> spikeChannelIndices c = Some chans \<and>
            spikesByFrame c = Some (fold (spikeLoopBody frames chans)
                                     [0..<loopCount (numSpikes c)] Map.empty))"
    then obtain frames chans where f: "spikeFrameIndices c = Some frames"
      "spikeChannelIndices c = Some chans"
      "spikesByFrame c = Some (fold (spikeLoopBody frames chans)
                                     [0..<loopCount (numSpikes c)] Map.empty)"
      by blast
    have e: "channelsOf Map.empty (Some i) = []" by (simp add: channelsOf_def)
    show ?thesis
      using channelsOf_fold_distinct [of Map.empty "Some i" frames chans "[0..<loopCount (numSpikes c)]"]
      by (simp add: gs f channelsOf_fold_set e loopCount_less spikeArrayGet_def)
  qed
  then have "numSpikes c = 0 \<longrightarrow> getSpikingChannels c i = []"
    by (metis (mono_tags, lifting) create_spikes [OF assms] gs less_irrefl option.simps(4))
  moreover have "(\<forall>k. real k < numSpikes c \<longrightarrow> spikeArrayGet (spikeFrameIndices c) k \<noteq> Some i) \<longrightarrow>
            getSpikingChannels c i = []"
  proof
    assume "\<forall>k. real k < numSpikes c \<longrightarrow> spikeArrayGet (spikeFrameIndices c) k \<noteq> Some i"
    then have "set (getSpikingChannels c i) = {}" using main by auto
    then show "getSpikingChannels c i = []" by simp
  qed
  ultimately show ?thesis using main by blast
qed

text \<open>The store with three spikes: channels 3 and 5 at index 100.\<close>

theorem getSpikingChannels_exact_witness:
  "\<exists>c. create spikeGroup = Inr c \<and> numSpikes c = 3 \<and>
       getSpikingChannels c 100 = [Some 3, Some 5] \<and>
       set (getSpikingChannels c 100) =
         {ch. \<exists>k. real k < numSpikes c \<and> spikeArrayGet (spikeFrameIndices c) k = Some 100 \<and>
                  spikeArrayGet (spikeChannelIndices c) k = ch} \<and>
       distinct (getSpikingChannels c 100)"
proof -
  have "\<exists>c. create spikeGroup = Inr c \<and> numSpikes c = 3 \<and>
          getSpikingChannels c 100 = [Some 3, Some 5]"
    by (simp add: create_def spikeGroup_def scenarioGroup_def Let_def newMEAMovieClient_def
        loadSpikeData_def loopCount_def getSpikingChannels_def upt_rec spikeLoopBody_def
        typedArrayGet_def setAdd_def)
  then obtain c where c: "create spikeGroup = Inr c" "numSpikes c = 3"
      "getSpikingChannels c 100 = [Some 3, Some 5]"
    by blast
  from getSpikingChannels_exact [OF c(1), of 100] c show ?thesis
    by blast
qed

section \<open>Failures of the load phase\<close>




section \<open>Frames\<close>

text \<open>
  Claim C8. \<open>getFrame index\<close> fails with the index-out-of-range error exactly when
  \<open>index < 0\<close> or \<open>index \<ge> sampleCount\<close>; for a valid index it asks the store for the
  slice \<open>[index, index + 1) \<times> [0, channelCount)\<close> and returns what the store gives. On a
  recording of 20000 samples, index 20000 fails so and indices 0 and 19999 do not.
\<close>

theorem getFrameData_index_range:
  "((\<exists>a b. getFrameData c i = Inl (TimeIndexOutOfRange a b)) \<longleftrightarrow>
      (i < 0 \<or> i \<ge> numTimepoints c)) \<and>
   (0 \<le> i \<and> i < numTimepoints c \<longrightarrow>
      getFrameData c i =
        (case getData (rawDataDataset c) (Some [(i, i + 1), (0, numChannels c)]) of
           Inl msg \<Rightarrow> Inl (StoreRejection msg)
         | Inr data \<Rightarrow> Inr data)) \<and>
   (numTimepoints c = 20000 \<longrightarrow>
      getFrameData c 20000 = Inl (TimeIndexOutOfRange 20000 20000) \<and>
      \<not> (\<exists>a b. getFrameData c 0 = Inl (TimeIndexOutOfRange a b)) \<and>
      \<not> (\<exists>a b. getFrameData c 19999 = Inl (TimeIndexOutOfRange a b)))"
  by (auto simp: getFrameData_def split: sum.splits)

theorem getFrameData_index_range_witness:
  "0 \<le> (19999::real) \<and> 19999 < numTimepoints scenarioClient \<and>
   numTimepoints scenarioClient = 20000 \<and>
   getFrameData scenarioClient 19999 = Inr (Some [19999, 19999, 19999, 19999]) \<and>
   getFrameData scenarioClient 20000 = Inl (TimeIndexOutOfRange 20000 20000)"
proof -
  have n: "numTimepoints scenarioClient = 20000"
    by (simp add: scenarioClient_def)
  have "getFrameData scenarioClient 19999 =
          (case getData (rawDataDataset scenarioClient)
                  (Some [(19999, 19999 + 1), (0, numChannels scenarioClient)]) of
             Inl msg \<Rightarrow> Inl (StoreRejection msg)
           | Inr data \<Rightarrow> Inr data)"
    using getFrameData_index_range [of scenarioClient 19999] n by simp
  then have ok: "getFrameData scenarioClient 19999 = Inr (Some [19999, 19999, 19999, 19999])"
    by (simp add: scenarioClient_def scenarioDataset_def)
  have "getFrameData scenarioClient 20000 = Inl (TimeIndexOutOfRange 20000 20000)"
    using getFrameData_index_range [of scenarioClient 19999] n by blast
  with n ok show ?thesis by simp
qed

section \<open>The playback clock\<close>

lemma create_scenarioGroup: "create scenarioGroup = Inr scenarioClient"
  by (simp add: create_def scenarioGroup_def scenarioClient_def newMEAMovieClient_def Let_def)

lemma scenarioStopped_eq:
  "scenarioStopped =
     \<lparr>client = Some scenarioClient, loading = False, error = None, isPlaying = False,
      playbackSpeed = 1, contrast = DEFAULT_CONTRAST, colormap = ''grayscale'',
      playbackStartWallClockTime = None, playbackStartDataTime = None,
      currentTime = Some 0\<rparr>"
  by (simp add: scenarioStopped_def load_def create_scenarioGroup initialView_def
      handleSpeedChange_def Let_def scenarioClient_def)

lemma scenarioPlaying_eq:
  "scenarioPlaying =
     \<lparr>client = Some scenarioClient, loading = False, error = None, isPlaying = True,
      playbackSpeed = 1, contrast = DEFAULT_CONTRAST, colormap = ''grayscale'',
      playbackStartWallClockTime = Some 1000, playbackStartDataTime = Some 0,
      currentTime = Some 0\<rparr>"
  by (simp add: scenarioPlaying_def scenarioStopped_eq handlePlayPause_def
      endTimeSec_scenarioClient)



text \<open>
  Claim C4. Pausing while playing clears the two anchors and \<open>isPlaying\<close> and changes
  nothing else, so the data time stays. Before the end time, resuming at an instant
  \<open>tr\<close> anchors at that instant and the data time, and the advance at the same
  instant reports the data time from before the pause.
\<close>

theorem pause_resume_continuous:
  "isPlaying s \<and> client s = Some c \<and> currentTime s = Some t \<and>
   0 < samplingFrequencyHz c \<longrightarrow>
     handlePlayPause tp s =
       s\<lparr>isPlaying := False, playbackStartWallClockTime := None,
         playbackStartDataTime := None\<rparr> \<and>
     currentTime (handlePlayPause tp s) = Some t \<and>
     playbackSpeed (handlePlayPause tp s) = playbackSpeed s \<and>
     (t < endTimeSec c \<longrightarrow>
        handlePlayPause tr (handlePlayPause tp s) =
          s\<lparr>isPlaying := True, playbackStartWallClockTime := Some tr,
            playbackStartDataTime := Some t\<rparr> \<and>
        currentTime (handlePlayPause tr (handlePlayPause tp s)) = Some t \<and>
        animationFrame tr (handlePlayPause tr (handlePlayPause tp s)) =
          (handlePlayPause tr (handlePlayPause tp s), True) \<and>
        currentTime (fst (animationFrame tr (handlePlayPause tr (handlePlayPause tp s)))) =
          Some t)"
  by (auto simp: animationFrame_def playbackEffectActive_def animate_def Let_def
      handlePlayPause_def)

theorem pause_resume_continuous_witness:
  "isPlaying scenarioPlaying \<and> client scenarioPlaying = Some scenarioClient \<and>
   currentTime scenarioPlaying = Some 0 \<and> 0 < samplingFrequencyHz scenarioClient \<and>
   0 < endTimeSec scenarioClient \<and>
   currentTime (handlePlayPause 1500 scenarioPlaying) = Some 0 \<and>
   currentTime (fst (animationFrame 1500
      (handlePlayPause 1500 (handlePlayPause 1500 scenarioPlaying)))) = Some 0"
proof -
  have pre: "isPlaying scenarioPlaying \<and> client scenarioPlaying = Some scenarioClient \<and>
      currentTime scenarioPlaying = Some 0 \<and> 0 < samplingFrequencyHz scenarioClient"
    by (simp add: scenarioPlaying_eq) (simp add: scenarioClient_def)
  have e: "0 < endTimeSec scenarioClient"
    by (simp add: endTimeSec_scenarioClient)
  from pause_resume_continuous [where s = scenarioPlaying and c = scenarioClient and t = 0
      and tp = 1500 and tr = 1500] pre e show ?thesis
    by blast
qed

section \<open>The colour step\<close>

lemma colorValue_degenerate:
  assumes "dataMin c = dataMedian c" and "dataMax c = dataMedian c" and "value = dataMedian c"
  shows "colorValue c k value = NaN"
  using assms by (simp add: colorValue_def Let_def js_sub_def)

lemma colorValue_positive_range:
  assumes "dataMin c \<noteq> dataMedian c \<or> dataMax c \<noteq> dataMedian c"
  shows "\<exists>x. colorValue c k value = Fin x \<and> 0 \<le> x \<and> x \<le> 1"
proof -
  define R where "R = 2 * max \<bar>dataMax c - dataMedian c\<bar> \<bar>dataMin c - dataMedian c\<bar>"
  define y where "y = (0.5 + (value - dataMedian c) / R - 0.5) * 2 * exp ((k - 40) / 10)"
  define z where "z = max (- 1) (min 1 y)"
  have R: "R \<noteq> 0" using assms by (auto simp: R_def max_def)
  have eq: "colorValue c k value = Fin ((- z + 1) / 2)"
    using R unfolding colorValue_def Let_def R_def [symmetric]
    by (simp add: js_sub_def z_def y_def)
  have "- 1 \<le> z \<and> z \<le> 1" by (simp add: z_def)
  then have "0 \<le> (- z + 1) / 2 \<and> (- z + 1) / 2 \<le> 1" by simp
  with eq show ?thesis by blast
qed

lemma colorValue_zero_range:
  assumes "dataMin c = dataMedian c" and "dataMax c = dataMedian c" and "value \<noteq> dataMedian c"
  shows "colorValue c k value = Fin (if value > dataMedian c then 0 else 1)"
  using assms by (simp add: colorValue_def Let_def js_sub_def)

text \<open>
  Claim C6 at a recording whose samples are all zero, at the default contrast: the
  data range is zero, the normalisation divides zero by zero and the value handed to the
  colormap is \<open>NaN\<close>, not a number of \<open>[0, 1]\<close>. By the lemmas above this is the only
  case: with a positive data range, or a sample off the median, the value is in
  \<open>[0, 1]\<close>.
\<close>

theorem colorValue_flat_recording:
  "dataMin flatClient = 0 \<and> dataMax flatClient = 0 \<and> dataMedian flatClient = 0 \<and>
   colorValue flatClient DEFAULT_CONTRAST 0 = NaN"
  by (simp add: colorValue_def flatClient_def scenarioClient_def Let_def js_sub_def)

section \<open>The spike overlay\<close>

lemma fold_mapDelete: "fold mapDelete ks m = filter (\<lambda>(k, v). k \<notin> set ks) m"
proof (induction ks arbitrary: m)
  case Nil
  then show ?case by simp
next
  case (Cons k ks)
  have "fold mapDelete (k # ks) m = fold mapDelete ks (mapDelete k m)"
    by simp
  also have "\<dots> = filter (\<lambda>(k', v). k' \<notin> set ks) (mapDelete k m)"
    by (rule Cons.IH)
  also have "\<dots> = filter (\<lambda>(k', v). k' \<notin> set (k # ks)) m"
    by (auto simp: mapDelete_def case_prod_unfold intro: filter_cong)
  finally show ?case .
qed

lemma distinct_keys_filter:
  assumes "distinct (map fst m)"
  shows "filter (\<lambda>(k, v). k \<notin> set (map fst (filter P m))) m = filter (\<lambda>e. \<not> P e) m"
proof (rule filter_cong [OF refl])
  fix e assume e: "e \<in> set m"
  obtain k v where kv: "e = (k, v)" by (cases e)
  have "k \<in> fst ` {x \<in> set m. P x} \<longleftrightarrow> P (k, v)"
  proof
    assume "k \<in> fst ` {x \<in> set m. P x}"
    then obtain v' where v': "(k, v') \<in> set m" "P (k, v')" by auto
    from assms e v'(1) have "v' = v"
      unfolding kv by (meson eq_key_imp_eq_value)
    with v' show "P (k, v)" by simp
  next
    assume "P (k, v)"
    with e kv show "k \<in> fst ` {x \<in> set m. P x}" by force
  qed
  then show "(case e of (k, v) \<Rightarrow> k \<notin> set (map fst (filter P m))) = (\<not> P e)"
    by (simp add: kv)
qed

lemma updateSpikingChannels_recent:
  "recentSpikes (updateSpikingChannels now s) =
     filter (\<lambda>(k, v). k \<notin> set (map fst (filter (\<lambda>(ch, t). now - t > 500) (recentSpikes s))))
       (recentSpikes s)"
  by (simp add: updateSpikingChannels_def Let_def fold_mapDelete
      SPIKE_PERSISTENCE_DURATION_SEC_def)

text \<open>
  Claim C3. While playing, a tracked entry of age \<open>a = (now - ts) / 1000\<close> seconds with
  \<open>0 \<le> a \<le> 0.5\<close> has opacity \<open>0.9 * (1 - a / 0.5)\<close>; the opacity is strictly
  decreasing in the age and is 0 exactly at the age of 0.5 s. \<open>updateSpikingChannels\<close>
  evicts every entry older than the window, and keeps exactly the others, which are the
  channels shown (the keys of the map are distinct). When not playing the opacity is 0.9.
\<close>

theorem spikeOpacity_fade_and_eviction:
  "(0 \<le> (now - ts) / 1000 \<and> (now - ts) / 1000 \<le> SPIKE_PERSISTENCE_DURATION_SEC \<longrightarrow>
      spikeOpacity True (Some ts) now = 0.9 * (1 - ((now - ts) / 1000) / 0.5) \<and>
      0 \<le> spikeOpacity True (Some ts) now \<and> spikeOpacity True (Some ts) now \<le> 0.9) \<and>
   (now1 - ts < now2 - ts \<longrightarrow>
      spikeOpacity True (Some ts) now2 < spikeOpacity True (Some ts) now1) \<and>
   (spikeOpacity True (Some ts) now = 0 \<longleftrightarrow>
      (now - ts) / 1000 = SPIKE_PERSISTENCE_DURATION_SEC) \<and>
   ((ch, ts) \<in> set (recentSpikes s) \<and> (now - ts) / 1000 > SPIKE_PERSISTENCE_DURATION_SEC \<longrightarrow>
      \<not> mapHas (recentSpikes (updateSpikingChannels now s)) ch \<and>
      (ch, ts) \<notin> set (recentSpikes (updateSpikingChannels now s))) \<and>
   (distinct (map fst (recentSpikes s)) \<longrightarrow>
      recentSpikes (updateSpikingChannels now s) =
        filter (\<lambda>(ch, t). (now - t) / 1000 \<le> SPIKE_PERSISTENCE_DURATION_SEC) (recentSpikes s) \<and>
      spikingChannels (updateSpikingChannels now s) =
        map fst (recentSpikes (updateSpikingChannels now s))) \<and>
   spikeOpacity False spikeTimestamp now = 0.9"
proof -
  have a: "0 \<le> (now - ts) / 1000 \<and> (now - ts) / 1000 \<le> SPIKE_PERSISTENCE_DURATION_SEC \<longrightarrow>
      spikeOpacity True (Some ts) now = 0.9 * (1 - ((now - ts) / 1000) / 0.5) \<and>
      0 \<le> spikeOpacity True (Some ts) now \<and> spikeOpacity True (Some ts) now \<le> 0.9"
    by (simp add: spikeOpacity_def SPIKE_PERSISTENCE_DURATION_SEC_def Let_def)
  have b: "now1 - ts < now2 - ts \<longrightarrow>
      spikeOpacity True (Some ts) now2 < spikeOpacity True (Some ts) now1"
    by (simp add: spikeOpacity_def SPIKE_PERSISTENCE_DURATION_SEC_def Let_def)
  have c: "spikeOpacity True (Some ts) now = 0 \<longleftrightarrow>
      (now - ts) / 1000 = SPIKE_PERSISTENCE_DURATION_SEC"
    by (auto simp: spikeOpacity_def SPIKE_PERSISTENCE_DURATION_SEC_def Let_def)
  have d: "(ch, ts) \<in> set (recentSpikes s) \<and> (now - ts) / 1000 > SPIKE_PERSISTENCE_DURATION_SEC \<longrightarrow>
      \<not> mapHas (recentSpikes (updateSpikingChannels now s)) ch \<and>
      (ch, ts) \<notin> set (recentSpikes (updateSpikingChannels now s))"
    by (force simp: updateSpikingChannels_recent mapHas_def SPIKE_PERSISTENCE_DURATION_SEC_def)
  have e: "recentSpikes (updateSpikingChannels now s) =
        filter (\<lambda>(ch, t). (now - t) / 1000 \<le> SPIKE_PERSISTENCE_DURATION_SEC) (recentSpikes s) \<and>
      spikingChannels (updateSpikingChannels now s) =
        map fst (recentSpikes (updateSpikingChannels now s))"
    if dk: "distinct (map fst (recentSpikes s))"
  proof -
    have r: "recentSpikes (updateSpikingChannels now s) =
        filter (\<lambda>e. \<not> (case e of (ch, t) \<Rightarrow> now - t > 500)) (recentSpikes s)"
      unfolding updateSpikingChannels_recent by (rule distinct_keys_filter [OF dk])
    have s1: "spikingChannels (updateSpikingChannels now s) =
        map fst (filter (\<lambda>e. \<not> (case e of (ch, t) \<Rightarrow> now - t > 500)) (recentSpikes s))"
      by (simp add: updateSpikingChannels_def Let_def SPIKE_PERSISTENCE_DURATION_SEC_def
          case_prod_unfold)
    have p: "(\<lambda>e. \<not> (case e of (ch, t) \<Rightarrow> now - t > 500)) =
        (\<lambda>(ch, t). (now - t) / 1000 \<le> SPIKE_PERSISTENCE_DURATION_SEC)"
      by (auto simp: SPIKE_PERSISTENCE_DURATION_SEC_def fun_eq_iff)
    show ?thesis using r s1 by (simp add: p)
  qed
  have f: "spikeOpacity False spikeTimestamp now = 0.9"
    by (simp add: spikeOpacity_def)
  from a b c d e f show ?thesis by blast
qed

theorem spikeOpacity_fade_and_eviction_witness:
  "(Some 3, 1000) \<in> set (recentSpikes trackedCanvas) \<and>
   distinct (map fst (recentSpikes trackedCanvas)) \<and>
   spikeOpacity True (Some 1000) 1250 = 0.45 \<and>
   spikeOpacity True (Some 1000) 1500 < spikeOpacity True (Some 1000) 1250 \<and>
   spikeOpacity True (Some 1000) 1500 = 0 \<and>
   recentSpikes (updateSpikingChannels 1500 trackedCanvas) = [(Some 3, 1000), (Some 7, 1400)] \<and>
   recentSpikes (updateSpikingChannels 1501 trackedCanvas) = [(Some 7, 1400)] \<and>
   spikingChannels (updateSpikingChannels 1501 trackedCanvas) = [Some 7] \<and>
   \<not> mapHas (recentSpikes (updateSpikingChannels 1501 trackedCanvas)) (Some 3) \<and>
   spikeOpacity False (Some 1000) 1250 = 0.9"
proof -
  have mem: "(Some 3, 1000) \<in> set (recentSpikes trackedCanvas)"
    and dk: "distinct (map fst (recentSpikes trackedCanvas))"
    by (simp_all add: trackedCanvas_def)
  have w: "SPIKE_PERSISTENCE_DURATION_SEC = 0.5"
    by (simp add: SPIKE_PERSISTENCE_DURATION_SEC_def)
  have o1: "spikeOpacity True (Some 1000) 1250 = 0.45"
    using spikeOpacity_fade_and_eviction [where ts = 1000 and now = 1250] by (simp add: w)
  have o2: "spikeOpacity True (Some 1000) 1500 < spikeOpacity True (Some 1000) 1250"
    using spikeOpacity_fade_and_eviction [where ts = 1000 and ?now1.0 = 1250 and ?now2.0 = 1500] by simp
  have o3: "spikeOpacity True (Some 1000) 1500 = 0"
    using spikeOpacity_fade_and_eviction [where ts = 1000 and now = 1500] by (simp add: w)
  have r0: "recentSpikes (updateSpikingChannels 1500 trackedCanvas) =
      [(Some 3, 1000), (Some 7, 1400)]"
    using spikeOpacity_fade_and_eviction [where s = trackedCanvas and now = 1500] dk
    by (simp add: w) (simp add: trackedCanvas_def)
  have r1: "recentSpikes (updateSpikingChannels 1501 trackedCanvas) = [(Some 7, 1400)]"
    using spikeOpacity_fade_and_eviction [where s = trackedCanvas and now = 1501] dk
    by (simp add: w) (simp add: trackedCanvas_def)
  have r2: "spikingChannels (updateSpikingChannels 1501 trackedCanvas) = [Some 7]"
    using spikeOpacity_fade_and_eviction [where s = trackedCanvas and now = 1501] dk r1 by simp
  have r3: "\<not> mapHas (recentSpikes (updateSpikingChannels 1501 trackedCanvas)) (Some 3)"
    using spikeOpacity_fade_and_eviction [where s = trackedCanvas and now = 1501 and ch = "Some 3" and ts = 1000] mem
    by (simp add: w)
  have o4: "spikeOpacity False (Some 1000) 1250 = 0.9"
    using spikeOpacity_fade_and_eviction [where spikeTimestamp = "Some 1000" and now = 1250] by simp
  from mem dk o1 o2 o3 r0 r1 r2 r3 o4 show ?thesis by blast
qed

section \<open>The marker radius\<close>

lemma inner_fold: "fold (minDistStep coords i) js acc = fold (pairStep coords) (map (Pair i) js) acc"
proof -
  have "pairStep coords \<circ> Pair i = minDistStep coords i"
    by (simp add: fun_eq_iff pairStep_def)
  then show ?thesis by (simp add: fold_map)
qed

lemma outer_fold:
  "fold (\<lambda>i. fold (minDistStep coords i) (f i)) is acc =
   fold (pairStep coords) (concat (map (\<lambda>i. map (Pair i) (f i)) is)) acc"
  by (induction "is" arbitrary: acc) (simp_all add: inner_fold)

lemma set_loopPairs: "set (loopPairs n) = {(i, j). i < j \<and> j < n}"
proof -
  have "(i, j) \<in> set (loopPairs n) \<longleftrightarrow> i < j \<and> j < n" for i j
  proof
    assume "(i, j) \<in> set (loopPairs n)"
    then show "i < j \<and> j < n" by (auto simp: loopPairs_def)
  next
    assume ij: "i < j \<and> j < n"
    then show "(i, j) \<in> set (loopPairs n)"
      by (auto simp: loopPairs_def intro!: bexI [of _ i])
  qed
  then show ?thesis by auto
qed

lemma fold_pairStep_None:
  "fold (pairStep coords) ps acc = None \<longleftrightarrow>
     acc = None \<and> (\<forall>p \<in> set ps. \<forall>d. electrodeDistance coords (fst p) (snd p) = Some d \<longrightarrow> \<not> 0 < d)"
  by (induction ps arbitrary: acc)
    (auto simp: pairStep_def minDistStep_def split: option.splits)

lemma fold_pairStep_mem:
  "fold (pairStep coords) ps acc = Some m \<Longrightarrow>
     acc = Some m \<or> (\<exists>p \<in> set ps. electrodeDistance coords (fst p) (snd p) = Some m \<and> 0 < m)"
  by (induction ps arbitrary: acc)
    (auto simp: pairStep_def minDistStep_def split: option.splits if_splits)

lemma fold_pairStep_le_acc:
  "fold (pairStep coords) ps (Some a) = Some m \<Longrightarrow> m \<le> a"
proof (induction ps arbitrary: a)
  case Nil
  then show ?case by simp
next
  case (Cons p ps)
  have "\<exists>a'. pairStep coords p (Some a) = Some a' \<and> a' \<le> a"
    by (auto simp: pairStep_def minDistStep_def split: option.splits)
  then obtain a' where a': "pairStep coords p (Some a) = Some a'" "a' \<le> a" by blast
  from Cons.prems have "fold (pairStep coords) ps (Some a') = Some m"
    by (simp add: a')
  from Cons.IH [OF this] a' show ?case by simp
qed

lemma fold_pairStep_lower:
  "fold (pairStep coords) ps acc = Some m \<Longrightarrow> p \<in> set ps \<Longrightarrow>
   electrodeDistance coords (fst p) (snd p) = Some d \<Longrightarrow> 0 < d \<Longrightarrow> m \<le> d"
proof (induction ps arbitrary: acc)
  case Nil
  then show ?case by simp
next
  case (Cons q ps)
  show ?case
  proof (cases "p = q")
    case True
    have "\<exists>a. pairStep coords q acc = Some a \<and> a \<le> d"
      using Cons.prems(3,4) True
      by (auto simp: pairStep_def minDistStep_def split: option.splits)
    then obtain a where a: "pairStep coords q acc = Some a" "a \<le> d" by blast
    from Cons.prems(1) have "fold (pairStep coords) ps (Some a) = Some m"
      by (simp add: a)
    from fold_pairStep_le_acc [OF this] a show ?thesis by simp
  next
    case False
    with Cons.prems have "p \<in> set ps" by simp
    moreover from Cons.prems(1) have "fold (pairStep coords) ps (pairStep coords q acc) = Some m"
      by simp
    ultimately show ?thesis using Cons.IH Cons.prems(3,4) by blast
  qed
qed

lemma electrodeDistance_Some_in_range:
  assumes "electrodeDistance coords i j = Some d"
  shows "j < loopCount (real (length coords) / 2)"
proof -
  from assms have "j * 2 < length coords"
    by (auto simp: electrodeDistance_def typedArrayGet_def split: option.splits if_splits)
  then show ?thesis by (simp add: loopCount_less)
qed

lemma calc_eq:
  "calculateMinElectrodeDistance coords =
     (case fold (pairStep coords) (loopPairs (loopCount (real (length coords) / 2))) None of
        None \<Rightarrow> 10 | Some m \<Rightarrow> m)"
  by (simp add: calculateMinElectrodeDistance_def Let_def outer_fold loopPairs_def)

lemma finite_positiveDistances: "finite (positiveDistances coords)"
proof -
  define n where "n = loopCount (real (length coords) / 2)"
  have "positiveDistances coords \<subseteq>
          (\<lambda>p. the (electrodeDistance coords (fst p) (snd p))) ` set (loopPairs n)"
  proof
    fix d assume "d \<in> positiveDistances coords"
    then obtain i j where ij: "i < j" "electrodeDistance coords i j = Some d"
      by (auto simp: positiveDistances_def)
    from electrodeDistance_Some_in_range [OF ij(2)] have "j < n" by (simp add: n_def)
    with ij have "(i, j) \<in> set (loopPairs n)" by (simp add: set_loopPairs)
    with ij(2) show "d \<in> (\<lambda>p. the (electrodeDistance coords (fst p) (snd p))) ` set (loopPairs n)"
      by force
  qed
  then show ?thesis by (rule finite_subset) simp
qed

lemma calc_positive:
  assumes "positiveDistances coords \<noteq> {}"
  shows "calculateMinElectrodeDistance coords = Min (positiveDistances coords)"
proof -
  define n where "n = loopCount (real (length coords) / 2)"
  define r where "r = fold (pairStep coords) (loopPairs n) None"
  from assms obtain d i j where ij: "i < j" "electrodeDistance coords i j = Some d" "0 < d"
    by (auto simp: positiveDistances_def)
  from electrodeDistance_Some_in_range [OF ij(2)] have "j < n" by (simp add: n_def)
  with ij have mem: "(i, j) \<in> set (loopPairs n)" by (simp add: set_loopPairs)
  have "r \<noteq> None"
    unfolding r_def fold_pairStep_None using mem ij by force
  then obtain m where m: "r = Some m" by blast
  have in_set: "m \<in> positiveDistances coords"
    using fold_pairStep_mem [of coords "loopPairs n" None m] m
    by (auto simp: r_def positiveDistances_def set_loopPairs)
  have least: "m \<le> d'" if "d' \<in> positiveDistances coords" for d'
  proof -
    from that obtain i' j' where ij': "i' < j'" "electrodeDistance coords i' j' = Some d'" "0 < d'"
      by (auto simp: positiveDistances_def)
    from electrodeDistance_Some_in_range [OF ij'(2)] have "j' < n" by (simp add: n_def)
    with ij' have "(i', j') \<in> set (loopPairs n)" by (simp add: set_loopPairs)
    from fold_pairStep_lower [OF m [unfolded r_def] this] ij' show ?thesis by simp
  qed
  have "Min (positiveDistances coords) = m"
    by (rule Min_eqI [OF finite_positiveDistances least in_set])
  moreover have "calculateMinElectrodeDistance coords = m"
    by (simp add: calc_eq n_def [symmetric] r_def [symmetric] m)
  ultimately show ?thesis by simp
qed

lemma calc_degenerate:
  assumes "positiveDistances coords = {}"
  shows "calculateMinElectrodeDistance coords = 10"
proof -
  define n where "n = loopCount (real (length coords) / 2)"
  have "fold (pairStep coords) (loopPairs n) None = None"
    unfolding fold_pairStep_None using assms
    by (auto simp: positiveDistances_def set_loopPairs)
  then show ?thesis by (simp add: calc_eq n_def [symmetric])
qed

text \<open>
  Claim C5, as the code has it. When some pair of electrodes has a positive distance,
  the radius is \<open>0.95 * m / 2\<close> for the least positive pairwise distance \<open>m\<close> (pairs at
  distance zero are skipped), so the markers of two electrodes at different places do
  not overlap, at any positive scale. Otherwise (fewer than two electrodes, or all at one
  place) the radius is 4.75. For (0,0), (1,0), (0,1) the minimum is 1 and the radius
  0.475.
\<close>

theorem electrodeRadius_least_positive_distance:
  "(positiveDistances coords \<noteq> {} \<longrightarrow>
      calculateMinElectrodeDistance coords = Min (positiveDistances coords) \<and>
      electrodeRadius coords = 0.95 * Min (positiveDistances coords) / 2 \<and>
      (\<forall>i j d scale. i < j \<and> electrodeDistance coords i j = Some d \<and> 0 < d \<and> 0 < scale \<longrightarrow>
         2 * electrodeRadius coords < d \<and>
         2 * (electrodeRadius coords * scale) < d * scale)) \<and>
   (positiveDistances coords = {} \<longrightarrow> electrodeRadius coords = 4.75) \<and>
   (length coords < 4 \<longrightarrow> positiveDistances coords = {}) \<and>
   calculateMinElectrodeDistance triangleLayout = 1 \<and>
   electrodeRadius triangleLayout = 0.475"
proof -
  have a: "calculateMinElectrodeDistance coords = Min (positiveDistances coords) \<and>
      electrodeRadius coords = 0.95 * Min (positiveDistances coords) / 2 \<and>
      (\<forall>i j d scale. i < j \<and> electrodeDistance coords i j = Some d \<and> 0 < d \<and> 0 < scale \<longrightarrow>
         2 * electrodeRadius coords < d \<and>
         2 * (electrodeRadius coords * scale) < d * scale)"
    if ne: "positiveDistances coords \<noteq> {}"
  proof -
    define m where "m = Min (positiveDistances coords)"
    have calc: "calculateMinElectrodeDistance coords = m"
      unfolding m_def by (rule calc_positive [OF ne])
    have "m \<in> positiveDistances coords"
      unfolding m_def by (rule Min_in [OF finite_positiveDistances ne])
    then have mpos: "0 < m" by (auto simp: positiveDistances_def)
    have r: "electrodeRadius coords = 0.95 * m / 2"
      by (simp add: electrodeRadius_def calc)
    have sep: "2 * electrodeRadius coords < d \<and> 2 * (electrodeRadius coords * scale) < d * scale"
      if h: "i < j \<and> electrodeDistance coords i j = Some d \<and> 0 < d \<and> 0 < scale"
      for i j d scale
    proof -
      from h have "d \<in> positiveDistances coords" by (auto simp: positiveDistances_def)
      then have "m \<le> d"
        unfolding m_def by (rule Min_le [OF finite_positiveDistances])
      with mpos have lt: "2 * electrodeRadius coords < d" by (simp add: r)
      moreover from lt h have "(2 * electrodeRadius coords) * scale < d * scale"
        by (simp only: mult_strict_right_mono)
      ultimately show ?thesis by (simp add: mult.assoc)
    qed
    from calc r sep show ?thesis unfolding m_def by blast
  qed
  have b: "electrodeRadius coords = 4.75" if "positiveDistances coords = {}"
    by (simp add: electrodeRadius_def calc_degenerate [OF that])
  have c: "positiveDistances coords = {}" if "length coords < 4"
    using that
    by (auto simp: positiveDistances_def electrodeDistance_def typedArrayGet_def
        split: option.splits)
  have d: "calculateMinElectrodeDistance triangleLayout = 1"
    by (simp add: triangleLayout_def calculateMinElectrodeDistance_def loopCount_def Let_def
        upt_rec minDistStep_def electrodeDistance_def typedArrayGet_def)
  then have e: "electrodeRadius triangleLayout = 0.475"
    by (simp add: electrodeRadius_def)
  from a b c d e show ?thesis by blast
qed

theorem electrodeRadius_least_positive_distance_witness:
  "positiveDistances triangleLayout \<noteq> {} \<and>
   Min (positiveDistances triangleLayout) = 1 \<and>
   electrodeRadius triangleLayout = 0.95 * 1 / 2 \<and>
   electrodeDistance triangleLayout 0 1 = Some 1 \<and>
   2 * electrodeRadius triangleLayout < 1 \<and>
   positiveDistances [0, 0] = {} \<and> electrodeRadius [0, 0] = 4.75"
proof -
  have d: "electrodeDistance triangleLayout 0 1 = Some 1"
    by (simp add: triangleLayout_def electrodeDistance_def typedArrayGet_def)
  then have "1 \<in> positiveDistances triangleLayout"
    unfolding positiveDistances_def by (simp del: One_nat_def) (metis zero_less_one)
  then have ne: "positiveDistances triangleLayout \<noteq> {}" by blast
  have one: "calculateMinElectrodeDistance triangleLayout = 1"
    using electrodeRadius_least_positive_distance [of triangleLayout] by blast
  have m: "Min (positiveDistances triangleLayout) = 1"
    using electrodeRadius_least_positive_distance [of triangleLayout] ne one by simp
  have r: "electrodeRadius triangleLayout = 0.95 * 1 / 2"
    using electrodeRadius_least_positive_distance [of triangleLayout] ne m by simp
  have sep: "2 * electrodeRadius triangleLayout < 1"
    using electrodeRadius_least_positive_distance [of triangleLayout] ne d by (metis zero_less_one)
  have deg: "positiveDistances [0, 0] = {}"
    using electrodeRadius_least_positive_distance [of "[0, 0]"] by simp
  then have "electrodeRadius [0, 0] = 4.75"
    using electrodeRadius_least_positive_distance [of "[0, 0]"] by blast
  with ne m r d sep deg show ?thesis by blast
qed

text \<open>
  Two electrodes at one place and a third at distance 1: the minimum pairwise distance
  is 0, the radius is 0.475, and the markers of the first two overlap.
\<close>

theorem electrodeRadius_coincident_counterexample:
  "pairwiseDistances coincidentLayout = [0, 1, 1] \<and>
   spec_minPairwiseDistance coincidentLayout = 0 \<and>
   electrodeRadius coincidentLayout = 19 / 40 \<and>
   electrodeRadius coincidentLayout \<noteq> 0.95 * spec_minPairwiseDistance coincidentLayout / 2 \<and>
   electrodeDistance coincidentLayout 0 1 = Some 0 \<and>
   0 < 2 * electrodeRadius coincidentLayout"
proof -
  have pd: "pairwiseDistances coincidentLayout = [0, 1, 1]"
    by (simp add: coincidentLayout_def pairwiseDistances_def loopCount_def upt_rec
        electrodeDistance_def typedArrayGet_def)
  have m: "spec_minPairwiseDistance coincidentLayout = 0"
    by (simp add: spec_minPairwiseDistance_def pd)
  have c: "calculateMinElectrodeDistance coincidentLayout = 1"
    by (simp add: coincidentLayout_def calculateMinElectrodeDistance_def loopCount_def Let_def
        upt_rec minDistStep_def electrodeDistance_def typedArrayGet_def)
  have d: "electrodeDistance coincidentLayout 0 1 = Some 0"
    by (simp add: coincidentLayout_def electrodeDistance_def typedArrayGet_def)
  from pd m c d show ?thesis by (simp add: electrodeRadius_def)
qed

section \<open>Frame fetches that settle out of order\<close>







text \<open>
  The calls in flight of a canvas are calls for its own recording: this holds when the
  canvas is mounted, and every render and every settled call keeps it. A render with
  another recording leaves none of the earlier calls in flight.
\<close>

lemma callsOfMountedClient_mount: "callsOfMountedClient (mount p)"
  by (simp add: callsOfMountedClient_def mount_def)

lemma callsOfMountedClient_render:
  assumes "callsOfMountedClient cv"
  shows "callsOfMountedClient (render p cv)"
  using assms by (auto simp: callsOfMountedClient_def render_def mount_def list_all_iff)

lemma callsOfMountedClient_settle:
  assumes "callsOfMountedClient cv"
  shows "callsOfMountedClient (settle k now now2 cv)"
  using assms
  by (auto simp: callsOfMountedClient_def settle_def Let_def list_all_iff
      dest: in_set_takeD in_set_dropD)

lemma render_other_client:
  assumes "propClient p \<noteq> propClient (props cv)"
  shows "render p cv = mount p"
  using assms by (simp add: render_def)

lemma otherRecordingSelected_eq:
  "otherRecordingSelected =
     mount \<lparr>propClient = shortClient, currentTimeIndex = 0, propIsPlaying = False\<rparr>"
proof -
  have "numTimepoints shortClient \<noteq> numTimepoints layoutClient"
    by (simp add: shortClient_def layoutClient_def scenarioClient_def)
  then have "shortClient \<noteq> layoutClient" by auto
  then show ?thesis
    by (simp add: otherRecordingSelected_def render_def mountedCanvas_def mount_def)
qed





end
